theory Spec2Isabelle
  imports Complex_Main
begin

section \<open>Numbers and vectors\<close>

text \<open>
  The scene code of \<^verbatim>\<open>src/components/World.tsx\<close> computes with JavaScript numbers.
  They are modelled by the reals: every statement below is about exact arithmetic, and
  rounding, infinities and NaN are outside the model.

  A \<^verbatim>\<open>THREE.Vector3\<close> is a record of its three coordinates.  The operations are
  those of three.js that the source calls, on values: \<^verbatim>\<open>length\<close>,
  \<^verbatim>\<open>distanceTo\<close>, \<^verbatim>\<open>add\<close>, \<^verbatim>\<open>subVectors\<close>, \<^verbatim>\<open>multiplyScalar\<close> and
  \<^verbatim>\<open>normalize\<close>, which divides by \<^verbatim>\<open>length() || 1\<close>, so that the zero vector is
  left as it is.
\<close>

record vec3 =
  x :: real
  y :: real
  z :: real

definition Vector3 :: "real \<Rightarrow> real \<Rightarrow> real \<Rightarrow> vec3" where
  "Vector3 a b c = \<lparr>x = a, y = b, z = c\<rparr>"

definition vlength :: "vec3 \<Rightarrow> real" where
  "vlength v = sqrt (x v * x v + y v * y v + z v * z v)"

definition add :: "vec3 \<Rightarrow> vec3 \<Rightarrow> vec3" where
  "add v w = \<lparr>x = x v + x w, y = y v + y w, z = z v + z w\<rparr>"

definition subVectors :: "vec3 \<Rightarrow> vec3 \<Rightarrow> vec3" where
  "subVectors a b = \<lparr>x = x a - x b, y = y a - y b, z = z a - z b\<rparr>"

definition multiplyScalar :: "vec3 \<Rightarrow> real \<Rightarrow> vec3" where
  "multiplyScalar v s = \<lparr>x = x v * s, y = y v * s, z = z v * s\<rparr>"

definition distanceTo :: "vec3 \<Rightarrow> vec3 \<Rightarrow> real" where
  "distanceTo v w = vlength (subVectors v w)"

definition normalize :: "vec3 \<Rightarrow> vec3" where
  "normalize v =
     multiplyScalar v (1 / (if vlength v = 0 then 1 else vlength v))"

section \<open>Vehicle controller\<close>

text \<open>
  The state of \<^verbatim>\<open>useCarController\<close>: the two vector refs, the braking flag and the
  heading held in React state.  The key map \<^verbatim>\<open>keys.current\<close> is a function from key
  codes to booleans; a code that was never pressed reads as \<^verbatim>\<open>undefined\<close>, which is
  falsy, hence \<open>False\<close>.  The callback clones both vectors before it combines them, so
  the vehicle is modelled on values.
\<close>

record car =
  position :: vec3
  velocity :: vec3
  isBraking :: bool
  rotation :: real

type_synonym keys = "string \<Rightarrow> bool"

definition throttle :: "keys \<Rightarrow> real" where
  "throttle keys =
     (0 + (if keys ''ArrowUp'' \<or> keys ''KeyW'' then 1 else 0))
       - (if keys ''ArrowDown'' \<or> keys ''KeyS'' then 1 else 0)"

definition steer :: "real \<Rightarrow> keys \<Rightarrow> real \<Rightarrow> real" where
  "steer delta keys r =
     (let rotSpeed = 3.0 * delta;
          r = (if keys ''ArrowLeft'' \<or> keys ''KeyA'' then r + rotSpeed else r);
          r = (if keys ''ArrowRight'' \<or> keys ''KeyD'' then r - rotSpeed else r)
      in r)"

definition apply_throttle :: "real \<Rightarrow> keys \<Rightarrow> real \<Rightarrow> vec3 \<Rightarrow> vec3" where
  "apply_throttle delta keys rot vel =
     (let isShiftPressed = keys ''ShiftLeft'' \<or> keys ''ShiftRight'';
          fwdSpeed = (if isShiftPressed then 80 else 40);
          revSpeed = 30;
          accAmount = (if throttle keys > 0 then fwdSpeed else revSpeed)
      in if throttle keys \<noteq> 0 then
           (let dirX = sin rot; dirZ = cos rot
            in vel\<lparr>x := x vel - dirX * throttle keys * accAmount * delta,
                   z := z vel - dirZ * throttle keys * accAmount * delta\<rparr>)
         else vel)"

definition bound :: real where
  "bound = 95"

definition friction :: real where
  "friction = 0.97"

text \<open>The bounds check works on the pair of the integrated position and the velocity.\<close>

definition bounds_check :: "vec3 \<times> vec3 \<Rightarrow> vec3 \<times> vec3" where
  "bounds_check pv =
     (let (newPos, vel) = pv;
          (newPos, vel) =
            (if \<bar>x newPos\<bar> > bound
             then (newPos\<lparr>x := sgn (x newPos) * bound\<rparr>, vel\<lparr>x := x vel * (- 0.5)\<rparr>)
             else (newPos, vel));
          (newPos, vel) =
            (if \<bar>z newPos\<bar> > bound
             then (newPos\<lparr>z := sgn (z newPos) * bound\<rparr>, vel\<lparr>z := z vel * (- 0.5)\<rparr>)
             else (newPos, vel))
      in (newPos, vel))"

text \<open>
  The callback passed to \<^verbatim>\<open>useFrame\<close>.  Its second component is the speed handed to
  \<^verbatim>\<open>soundManager.updateEngine\<close>, when that call is reached.
\<close>

definition useCarController_frame :: "real \<Rightarrow> keys \<Rightarrow> car \<Rightarrow> car \<times> real option" where
  "useCarController_frame delta keys s =
     (if keys ''KeyR'' then
        (s\<lparr>velocity := Vector3 0 0 0, position := Vector3 0 0.5 0, rotation := 0\<rparr>, None)
      else
        (let vel = apply_throttle delta keys (rotation s) (velocity s);
             newPos = add (position s) (multiplyScalar vel delta);
             (newPos, vel) = bounds_check (newPos, vel);
             vel = multiplyScalar vel friction;
             currentSpeed = vlength vel
         in (\<lparr>position = newPos, velocity = vel, isBraking = (throttle keys < 0),
              rotation = steer delta keys (rotation s)\<rparr>,
             Some currentSpeed)))"

text \<open>A run of frames, each with its time delta and the keys held during it.\<close>

fun car_run :: "(real \<times> keys) list \<Rightarrow> car \<Rightarrow> car" where
  "car_run [] s = s"
| "car_run (f # fs) s = car_run fs (fst (useCarController_frame (fst f) (snd f) s))"

text \<open>
  No movement, steering or reset key is held in any frame of the run, and after every
  frame the position is strictly inside the bound on both planar axes.
\<close>

definition no_input :: "keys \<Rightarrow> bool" where
  "no_input keys \<longleftrightarrow>
     \<not> keys ''ArrowUp'' \<and> \<not> keys ''KeyW'' \<and> \<not> keys ''ArrowDown'' \<and> \<not> keys ''KeyS''
     \<and> \<not> keys ''ArrowLeft'' \<and> \<not> keys ''KeyA'' \<and> \<not> keys ''ArrowRight'' \<and> \<not> keys ''KeyD''
     \<and> \<not> keys ''KeyR''"

fun coasting :: "(real \<times> keys) list \<Rightarrow> car \<Rightarrow> bool" where
  "coasting [] s = True"
| "coasting (f # fs) s =
     (let s' = fst (useCarController_frame (fst f) (snd f) s)
      in no_input (snd f) \<and> \<bar>x (position s')\<bar> < bound \<and> \<bar>z (position s')\<bar> < bound
         \<and> coasting fs s')"

section \<open>Camera rig\<close>

text \<open>
  \<^verbatim>\<open>THREE.MathUtils.clamp(value, min, max)\<close> is
  \<^verbatim>\<open>Math.max(min, Math.min(max, value))\<close>.  The wheel handler of
  \<^verbatim>\<open>CameraHandler\<close> returns at once while an overlay is open, and otherwise
  stores the clamped sum in \<^verbatim>\<open>distance.current\<close>.
\<close>

definition clamp :: "real \<Rightarrow> real \<Rightarrow> real \<Rightarrow> real" where
  "clamp v lo hi = max lo (min hi v)"

definition onWheel :: "bool \<Rightarrow> real \<Rightarrow> real \<Rightarrow> real" where
  "onWheel isOverlayOpen deltaY distance =
     (if isOverlayOpen then distance
      else clamp (distance + deltaY * 0.02) 5 40)"

section \<open>Proximity triggers\<close>

datatype AppSection = HOME | VEO_STUDIO | IMAGE_EDITOR | CONTACT | ABOUT | SKILLS

record trigger =
  pos :: vec3
  trigger_section :: AppSection
  trigger_text :: string
  color :: string
  subtext :: string

definition triggers :: "trigger list" where
  "triggers =
     [\<lparr>pos = Vector3 0 0 (- 25), trigger_section = ABOUT, trigger_text = ''About Me'',
        color = ''#6366f1'', subtext = ''The Developer''\<rparr>,
      \<lparr>pos = Vector3 25 0 0, trigger_section = SKILLS, trigger_text = ''Skills'',
        color = ''#10b981'', subtext = ''Tech Stack''\<rparr>,
      \<lparr>pos = Vector3 0 0 25, trigger_section = CONTACT, trigger_text = ''Contact'',
        color = ''#f59e0b'', subtext = ''Get in Touch''\<rparr>,
      \<lparr>pos = Vector3 (- 25) 0 (- 8), trigger_section = VEO_STUDIO, trigger_text = ''Veo Studio'',
        color = ''#9333ea'', subtext = ''Generative Video''\<rparr>,
      \<lparr>pos = Vector3 (- 25) 0 8, trigger_section = IMAGE_EDITOR,
        trigger_text = ''Magic Editor'', color = ''#3b82f6'', subtext = ''Image Editing''\<rparr>]"

text \<open>
  The frame callback of \<^verbatim>\<open>SectionTrigger\<close>: the value passed to \<^verbatim>\<open>setActive\<close>,
  from the vehicle position and the zone position.
\<close>

definition SectionTrigger_active :: "vec3 \<Rightarrow> vec3 \<Rightarrow> bool" where
  "SectionTrigger_active carPos zonePos \<longleftrightarrow> distanceTo carPos zonePos < 6"

text \<open>
  The key handler of \<^verbatim>\<open>SceneContent\<close>: the section passed to
  \<^verbatim>\<open>onSectionEnter\<close>, if the callback is called.  \<^verbatim>\<open>Array.prototype.find\<close> returns
  the first element that satisfies the predicate, as \<^const>\<open>List.find\<close> does.
\<close>

definition within_radius :: "vec3 \<Rightarrow> trigger \<Rightarrow> bool" where
  "within_radius carPos t \<longleftrightarrow> distanceTo (pos t) carPos < 6"

definition handleKeyDown :: "string \<Rightarrow> trigger list \<Rightarrow> vec3 \<Rightarrow> AppSection option" where
  "handleKeyDown key ts carPos =
     (if key = ''Enter'' then
        (case List.find (within_radius carPos) ts of
           Some closest \<Rightarrow> Some (trigger_section closest)
         | None \<Rightarrow> None)
      else None)"

text \<open>
  The planar distance of the specification: the distance of the projections onto the
  ground plane.
\<close>

definition planar_distance :: "vec3 \<Rightarrow> vec3 \<Rightarrow> real" where
  "planar_distance a b = sqrt ((x a - x b) * (x a - x b) + (z a - z b) * (z a - z b))"

section \<open>Crate system\<close>

text \<open>
  The frame callback of \<^verbatim>\<open>CrateSystem\<close> works on vector objects through their
  methods, and three.js methods such as \<^verbatim>\<open>multiplyScalar\<close>, \<^verbatim>\<open>add\<close>,
  \<^verbatim>\<open>normalize\<close> and \<^verbatim>\<open>copy\<close> change the receiver and return it, so that two
  names can stand for one object.  The objects therefore live in a store: a reference is
  an address, \<open>objs\<close> maps each address to the vector held there, \<open>fresh\<close> is the next
  unused address, and \<open>impacts\<close> records the strengths passed to
  \<^verbatim>\<open>soundManager.playImpact\<close>.  A \<^verbatim>\<open>THREE.Euler\<close> is stored by its three angles
  in the same way.
\<close>

type_synonym ref = nat

record store =
  objs :: "ref \<Rightarrow> vec3"
  fresh :: ref
  impacts :: "real list"

definition update_obj :: "ref \<Rightarrow> vec3 \<Rightarrow> store \<Rightarrow> store" where
  "update_obj r v st = st\<lparr>objs := (objs st)(r := v)\<rparr>"

definition new_Vector3 :: "vec3 \<Rightarrow> store \<Rightarrow> ref \<times> store" where
  "new_Vector3 v st = (fresh st, (update_obj (fresh st) v st)\<lparr>fresh := Suc (fresh st)\<rparr>)"

definition clone_obj :: "ref \<Rightarrow> store \<Rightarrow> ref \<times> store" where
  "clone_obj r st = new_Vector3 (objs st r) st"

definition multiplyScalar_obj :: "ref \<Rightarrow> real \<Rightarrow> store \<Rightarrow> ref \<times> store" where
  "multiplyScalar_obj r s st = (r, update_obj r (multiplyScalar (objs st r) s) st)"

definition add_obj :: "ref \<Rightarrow> ref \<Rightarrow> store \<Rightarrow> ref \<times> store" where
  "add_obj r q st = (r, update_obj r (add (objs st r) (objs st q)) st)"

definition subVectors_obj :: "ref \<Rightarrow> ref \<Rightarrow> ref \<Rightarrow> store \<Rightarrow> ref \<times> store" where
  "subVectors_obj r a b st = (r, update_obj r (subVectors (objs st a) (objs st b)) st)"

definition normalize_obj :: "ref \<Rightarrow> store \<Rightarrow> ref \<times> store" where
  "normalize_obj r st = (r, update_obj r (normalize (objs st r)) st)"

definition copy_obj :: "ref \<Rightarrow> ref \<Rightarrow> store \<Rightarrow> ref \<times> store" where
  "copy_obj r q st = (r, update_obj r (objs st q) st)"

definition set_x :: "ref \<Rightarrow> real \<Rightarrow> store \<Rightarrow> store" where
  "set_x r a st = update_obj r ((objs st r)\<lparr>x := a\<rparr>) st"

definition set_y :: "ref \<Rightarrow> real \<Rightarrow> store \<Rightarrow> store" where
  "set_y r a st = update_obj r ((objs st r)\<lparr>y := a\<rparr>) st"

definition set_z :: "ref \<Rightarrow> real \<Rightarrow> store \<Rightarrow> store" where
  "set_z r a st = update_obj r ((objs st r)\<lparr>z := a\<rparr>) st"

definition playImpact :: "real \<Rightarrow> store \<Rightarrow> store" where
  "playImpact strength st = st\<lparr>impacts := impacts st @ [strength]\<rparr>"

text \<open>
  A crate holds references to its position, velocity and rotation objects; a mesh to its
  own position and rotation; the part of \<^verbatim>\<open>CarApi\<close> that the crates read is the two
  vector refs of the vehicle and its radius.
\<close>

record crate =
  crate_id :: real
  crate_position :: ref
  crate_velocity :: ref
  crate_rotation :: ref
  crate_color :: string

record mesh =
  mesh_position :: ref
  mesh_rotation :: ref

record carApi =
  api_position :: ref
  api_velocity :: ref
  radius :: real

text \<open>Step 1 of the loop body: gravity or ground contact, integration, visual spin.\<close>

definition crate_physics :: "real \<Rightarrow> crate \<Rightarrow> store \<Rightarrow> store" where
  "crate_physics delta crate st =
     (let st =
            (if y (objs st (crate_position crate)) > 0.5 then
               set_y (crate_velocity crate) (y (objs st (crate_velocity crate)) - 20 * delta) st
             else
               (let st = set_y (crate_velocity crate) 0 st;
                    st = set_y (crate_position crate) 0.5 st;
                    (_, st) = multiplyScalar_obj (crate_velocity crate) 0.90 st
                in st));
          (step, st) = clone_obj (crate_velocity crate) st;
          (step, st) = multiplyScalar_obj step delta st;
          (_, st) = add_obj (crate_position crate) step st;
          st = set_x (crate_rotation crate)
                 (x (objs st (crate_rotation crate))
                    + z (objs st (crate_velocity crate)) * delta * 0.5) st;
          st = set_z (crate_rotation crate)
                 (z (objs st (crate_rotation crate))
                    - x (objs st (crate_velocity crate)) * delta * 0.5) st
      in st)"

text \<open>
  Step 2 of the loop body: the collision with the vehicle.  Each line of the branch is one
  statement of the source, in its order.
\<close>

definition crate_collision :: "carApi \<Rightarrow> crate \<Rightarrow> store \<Rightarrow> store" where
  "crate_collision carApi crate st =
     (let carPos = api_position carApi;
          carVel = api_velocity carApi;
          dist = distanceTo (objs st (crate_position crate)) (objs st carPos);
          minDist = radius carApi + 0.8
      in if dist < minDist then
           (let (direction, st) = new_Vector3 (Vector3 0 0 0) st;
                (direction, st) = subVectors_obj direction (crate_position crate) carPos st;
                (direction, st) = normalize_obj direction st;
                impactForce = vlength (objs st carVel) * 1.5;
                (forceVec, st) = multiplyScalar_obj direction impactForce st;
                st = set_y forceVec (min (impactForce * 0.5) 10) st;
                (_, st) = add_obj (crate_velocity crate) forceVec st;
                (pushOut, st) = clone_obj direction st;
                (pushOut, st) = multiplyScalar_obj pushOut (minDist - dist) st;
                (_, st) = add_obj (crate_position crate) pushOut st
            in if impactForce > 5 then playImpact (impactForce / 20) st else st)
         else st)"

text \<open>
  In that branch \<^verbatim>\<open>multiplyScalar\<close> returns its receiver, so \<open>forceVec\<close> is the
  object \<open>direction\<close>, and the assignment to \<^verbatim>\<open>forceVec.y\<close> writes into it as well.
  The vector that this one object holds from then on, for a crate at \<open>p\<close>:
\<close>

definition impulse :: "vec3 \<Rightarrow> vec3 \<Rightarrow> vec3 \<Rightarrow> vec3" where
  "impulse p carPos carVel =
     (multiplyScalar (normalize (subVectors p carPos)) (vlength carVel * 1.5))
       \<lparr>y := min (vlength carVel * 1.5 * 0.5) 10\<rparr>"

text \<open>
  The body of \<^verbatim>\<open>crates.current.forEach\<close> for one crate and the mesh found at its
  index, if any; the last two statements copy the crate to the rendered mesh.
\<close>

definition crate_forEach_body :: "real \<Rightarrow> carApi \<Rightarrow> crate \<Rightarrow> mesh option \<Rightarrow> store \<Rightarrow> store" where
  "crate_forEach_body delta carApi crate mesh_opt st =
     (case mesh_opt of
        None \<Rightarrow> st
      | Some mesh \<Rightarrow>
          (let st = crate_physics delta crate st;
               st = crate_collision carApi crate st;
               (_, st) = copy_obj (mesh_position mesh) (crate_position crate) st;
               (_, st) = copy_obj (mesh_rotation mesh) (crate_rotation crate) st
           in st))"

text \<open>
  The collision test of step 2, on the store it is evaluated in; and the condition under
  which the objects of a crate, its mesh and the vehicle are distinct allocated objects.
\<close>

definition collides :: "carApi \<Rightarrow> crate \<Rightarrow> store \<Rightarrow> bool" where
  "collides carApi crate st \<longleftrightarrow>
     distanceTo (objs st (crate_position crate)) (objs st (api_position carApi))
       < radius carApi + 0.8"

definition allocated :: "carApi \<Rightarrow> crate \<Rightarrow> mesh \<Rightarrow> store \<Rightarrow> bool" where
  "allocated carApi crate mesh st \<longleftrightarrow>
     distinct [crate_position crate, crate_velocity crate, crate_rotation crate,
               mesh_position mesh, mesh_rotation mesh,
               api_position carApi, api_velocity carApi]
     \<and> list_all (\<lambda>r. r < fresh st)
          [crate_position crate, crate_velocity crate, crate_rotation crate,
           mesh_position mesh, mesh_rotation mesh,
           api_position carApi, api_velocity carApi]"

text \<open>
  A run of frames as one crate sees it.  Each frame carries its time delta and the
  position and velocity that the vehicle controller has left in the vehicle's objects
  when the crate callback runs.
\<close>

definition drive :: "vec3 \<Rightarrow> vec3 \<Rightarrow> carApi \<Rightarrow> store \<Rightarrow> store" where
  "drive carPos carVel carApi st =
     update_obj (api_velocity carApi) carVel (update_obj (api_position carApi) carPos st)"

fun crate_run :: "(real \<times> vec3 \<times> vec3) list \<Rightarrow> carApi \<Rightarrow> crate \<Rightarrow> mesh \<Rightarrow> store \<Rightarrow> store" where
  "crate_run [] carApi crate mesh st = st"
| "crate_run ((delta, carPos, carVel) # fs) carApi crate mesh st =
     crate_run fs carApi crate mesh
       (crate_forEach_body delta carApi crate (Some mesh) (drive carPos carVel carApi st))"


text \<open>
  A scene with one crate whose position object holds \<open>p\<close>, as the initialisation code
  builds it: the crate at rest with no spin, its mesh at the same place, and the vehicle
  parked at \<open>(0, 0.5, 0)\<close> with radius 2.  The crate's objects are at the addresses 0
  to 2, the mesh's at 3 and 4, the vehicle's at 5 and 6.
\<close>

definition scene :: "vec3 \<Rightarrow> store" where
  "scene p =
     \<lparr>objs = (\<lambda>_. Vector3 0 0 0)(0 := p, 3 := p, 5 := Vector3 0 0.5 0),
      fresh = 7, impacts = []\<rparr>"

definition scene_crate :: crate where
  "scene_crate =
     \<lparr>crate_id = 0, crate_position = 0, crate_velocity = 1, crate_rotation = 2,
      crate_color = ''#facc15''\<rparr>"

definition scene_mesh :: mesh where
  "scene_mesh = \<lparr>mesh_position = 3, mesh_rotation = 4\<rparr>"

definition scene_car :: carApi where
  "scene_car = \<lparr>api_position = 5, api_velocity = 6, radius = 2.0\<rparr>"

section \<open>AI gateway\<close>

text \<open>
  The two operations of \<^verbatim>\<open>src/services/geminiService.ts\<close>.  A rejected promise or a
  thrown exception is a value on the left of a sum: \<open>Error\<close> with its message for the
  errors that the service itself throws, \<open>Rejection\<close> for whatever an awaited call of
  the browser or of the SDK rejects with.  The records follow the SDK's response types;
  an optional field is an \<open>option\<close>, and a missing \<^verbatim>\<open>done\<close> flag reads as false.
\<close>

datatype error = Error string | Rejection string

record Video =
  uri :: "string option"

record GeneratedVideo =
  video :: "Video option"

record GenerateVideosResponse =
  generatedVideos :: "GeneratedVideo list option"

record GenerateVideosOperation =
  op_done :: bool
  response :: "GenerateVideosResponse option"

record Response =
  ok :: bool
  blob :: "error + string"

record Blob =
  data :: "string option"
  mimeType :: "string option"

record Part =
  inlineData :: "Blob option"
  part_text :: "string option"

record Content =
  parts :: "Part list option"

record Candidate =
  content :: "Content option"

record GenerateContentResponse =
  candidates :: "Candidate list option"

text \<open>
  The SDK client that \<^verbatim>\<open>getAI\<close> builds, by what its methods answer during one call:
  the answer to the submit request, the answer to each status request by its number, and
  the answer to the image request.  The requests carry the image and the prompt to the
  backend and influence nothing else, so the answers are taken as given.
\<close>

record client =
  generateVideos :: "error + GenerateVideosOperation"
  getVideosOperation :: "nat \<Rightarrow> error + GenerateVideosOperation"
  generateContent :: "error + GenerateContentResponse"

text \<open>
  What the world outside the service does during one call: the value of
  \<^verbatim>\<open>process.env.API_KEY\<close>, the outcome of the SDK's constructor
  \<^verbatim>\<open>new GoogleGenAI({ apiKey })\<close> for a given key (a client, or the error that the
  constructor throws, as it does in a browser when no key is set), the outcome of reading
  the file with \<^verbatim>\<open>FileReader\<close>, the answer to a download by its URL, and the URL that
  \<^verbatim>\<open>URL.createObjectURL\<close> gives for a blob.
\<close>

record env =
  API_KEY :: "string option"
  GoogleGenAI :: "string option \<Rightarrow> error + client"
  readAsDataURL :: "error + string"
  fetch :: "string \<Rightarrow> error + Response"
  createObjectURL :: "string \<Rightarrow> string"

text \<open>
  \<^verbatim>\<open>const getAI = () => new GoogleGenAI({ apiKey: process.env.API_KEY })\<close>, the
  first statement of both operations.
\<close>

definition getAI :: "env \<Rightarrow> error + client" where
  "getAI env = GoogleGenAI env (API_KEY env)"

text \<open>A template literal renders \<^verbatim>\<open>undefined\<close> as the text ``undefined''.\<close>

definition template :: "string option \<Rightarrow> string" where
  "template v = (case v of None \<Rightarrow> ''undefined'' | Some s \<Rightarrow> s)"

definition fileToBase64 :: "env \<Rightarrow> error + string" where
  "fileToBase64 env =
     (case readAsDataURL env of Inl error \<Rightarrow> Inl error | Inr result \<Rightarrow> Inr result)"

text \<open>
  The polling loop.  It may run forever, so it is a partial function: \<open>None\<close> is a
  loop that never ends.  The second argument counts the status requests made so far.
\<close>

partial_function (option) poll ::
  "(nat \<Rightarrow> error + GenerateVideosOperation) \<Rightarrow> nat \<Rightarrow> GenerateVideosOperation
     \<Rightarrow> (error + GenerateVideosOperation) option" where
  "poll getOp n operation =
     (if \<not> op_done operation then
        (case getOp n of
           Inl e \<Rightarrow> Some (Inl e)
         | Inr operation' \<Rightarrow> poll getOp (Suc n) operation')
      else Some (Inr operation))"

text \<open>\<^verbatim>\<open>operation.response?.generatedVideos?.[0]?.video?.uri\<close>\<close>

definition operation_videoUri :: "GenerateVideosOperation \<Rightarrow> string option" where
  "operation_videoUri operation =
     (case response operation of
        None \<Rightarrow> None
      | Some r \<Rightarrow>
          (case generatedVideos r of
             None \<Rightarrow> None
           | Some [] \<Rightarrow> None
           | Some (v # _) \<Rightarrow> (case video v of None \<Rightarrow> None | Some vd \<Rightarrow> uri vd)))"

text \<open>The statements after the loop; an empty URI is falsy like a missing one.\<close>

definition retrieve :: "env \<Rightarrow> GenerateVideosOperation \<Rightarrow> error + string" where
  "retrieve env operation =
     (case operation_videoUri operation of
        None \<Rightarrow> Inl (Error ''No video URI returned'')
      | Some videoUri \<Rightarrow>
          if videoUri = [] then Inl (Error ''No video URI returned'')
          else
            (case fetch env (videoUri @ ''&key='' @ template (API_KEY env)) of
               Inl e \<Rightarrow> Inl e
             | Inr res \<Rightarrow>
                 if \<not> ok res then Inl (Error ''Failed to download video'')
                 else (case blob res of
                         Inl e \<Rightarrow> Inl e
                       | Inr b \<Rightarrow> Inr (createObjectURL env b))))"

definition generateVideo :: "env \<Rightarrow> (error + string) option" where
  "generateVideo env =
     (case getAI env of
        Inl e \<Rightarrow> Some (Inl e)
      | Inr ai \<Rightarrow>
          (case fileToBase64 env of
             Inl e \<Rightarrow> Some (Inl e)
           | Inr base64Image \<Rightarrow>
               (case generateVideos ai of
                  Inl e \<Rightarrow> Some (Inl e)
                | Inr operation \<Rightarrow>
                    (case poll (getVideosOperation ai) 0 operation of
                       None \<Rightarrow> None
                     | Some (Inl e) \<Rightarrow> Some (Inl e)
                     | Some (Inr operation) \<Rightarrow> Some (retrieve env operation)))))"

text \<open>
  What the loop holds after \<open>k\<close> further status requests, when it holds \<open>operation\<close>
  after \<open>n\<close> of them; and the condition that each of the first \<open>k\<close> of these
  observations is a successful answer that is not done, so that the loop goes on.
\<close>

fun observed ::
  "(nat \<Rightarrow> error + GenerateVideosOperation) \<Rightarrow> nat \<Rightarrow> GenerateVideosOperation \<Rightarrow> nat
     \<Rightarrow> error + GenerateVideosOperation" where
  "observed getOp n operation 0 = Inr operation"
| "observed getOp n operation (Suc k) = getOp (n + k)"

definition pending ::
  "(nat \<Rightarrow> error + GenerateVideosOperation) \<Rightarrow> nat \<Rightarrow> GenerateVideosOperation \<Rightarrow> nat \<Rightarrow> bool" where
  "pending getOp n operation k \<longleftrightarrow>
     (\<forall>j<k. \<exists>operation'. observed getOp n operation j = Inr operation' \<and> \<not> op_done operation')"

text \<open>
  \<^verbatim>\<open>response.candidates?.[0]?.content?.parts || []\<close>, and the loop over the parts
  with the \<^verbatim>\<open>throw\<close> that follows it.
\<close>

definition response_parts :: "GenerateContentResponse \<Rightarrow> Part list" where
  "response_parts r =
     (case candidates r of
        None \<Rightarrow> []
      | Some [] \<Rightarrow> []
      | Some (c # _) \<Rightarrow>
          (case content c of
             None \<Rightarrow> []
           | Some ct \<Rightarrow> (case parts ct of None \<Rightarrow> [] | Some ps \<Rightarrow> ps)))"

fun extract_image :: "Part list \<Rightarrow> error + string" where
  "extract_image [] = Inl (Error ''No image generated in response'')"
| "extract_image (part # rest) =
     (case inlineData part of
        Some d \<Rightarrow> Inr (''data:image/png;base64,'' @ template (data d))
      | None \<Rightarrow> extract_image rest)"

definition editImage :: "env \<Rightarrow> error + string" where
  "editImage env =
     (case getAI env of
        Inl e \<Rightarrow> Inl e
      | Inr ai \<Rightarrow>
          (case fileToBase64 env of
             Inl e \<Rightarrow> Inl e
           | Inr base64Image \<Rightarrow>
               (case generateContent ai of
                  Inl e \<Rightarrow> Inl e
                | Inr r \<Rightarrow> extract_image (response_parts r))))"

text \<open>
  A browser session for the examples below: an SDK constructor that throws when it is
  given no key or an empty one, and otherwise builds a client whose backend answers the
  submit request with a finished operation that carries a video URI; a download that
  succeeds; and the key and the outcome of the file read as parameters.
\<close>

definition finished_operation :: GenerateVideosOperation where
  "finished_operation =
     \<lparr>op_done = True,
      response = Some \<lparr>generatedVideos =
        Some [\<lparr>video = Some \<lparr>uri = Some ''https://video''\<rparr>\<rparr>]\<rparr>\<rparr>"

definition sdk :: "string option \<Rightarrow> error + client" where
  "sdk apiKey =
     (if apiKey = None \<or> apiKey = Some [] then Inl (Rejection ''API key must be set'')
      else Inr \<lparr>generateVideos = Inr finished_operation,
                getVideosOperation = (\<lambda>_. Inr finished_operation),
                generateContent = Inl (Rejection ''not an image model'')\<rparr>)"

definition browser :: "string option \<Rightarrow> error + string \<Rightarrow> env" where
  "browser apiKey file =
     \<lparr>API_KEY = apiKey, GoogleGenAI = sdk, readAsDataURL = file,
      fetch = (\<lambda>_. Inr \<lparr>ok = True, blob = Inr ''mp4''\<rparr>),
      createObjectURL = (\<lambda>b. ''blob:'' @ b)\<rparr>"

section \<open>Properties of the vehicle controller\<close>

lemma vlength_multiplyScalar: "vlength (multiplyScalar v s) = vlength v * \<bar>s\<bar>"
proof -
  have "x v * s * (x v * s) + y v * s * (y v * s) + z v * s * (z v * s)
        = (x v * x v + y v * y v + z v * z v) * (s * s)"
    by (simp add: algebra_simps)
  then show ?thesis
    by (simp add: vlength_def multiplyScalar_def real_sqrt_mult)
qed

lemma vlength_nonneg: "0 \<le> vlength v"
  by (simp add: vlength_def)

lemma throttle_no_input: "no_input keys \<Longrightarrow> throttle keys = 0"
  by (simp add: no_input_def throttle_def)

lemma bounds_check_position:
  "\<bar>x (fst (bounds_check (p, v)))\<bar> \<le> bound \<and> \<bar>z (fst (bounds_check (p, v)))\<bar> \<le> bound"
  by (simp add: bounds_check_def bound_def abs_mult split: if_splits)

lemma bounds_check_x:
  "bound < \<bar>x p\<bar> \<Longrightarrow>
     x (fst (bounds_check (p, v))) = sgn (x p) * bound \<and> x (snd (bounds_check (p, v))) = - (x v / 2)"
  by (simp add: bounds_check_def)

lemma bounds_check_z:
  "bound < \<bar>z p\<bar> \<Longrightarrow>
     z (fst (bounds_check (p, v))) = sgn (z p) * bound \<and> z (snd (bounds_check (p, v))) = - (z v / 2)"
  by (simp add: bounds_check_def)

lemma bounds_check_inside:
  "\<bar>x (fst (bounds_check (p, v)))\<bar> < bound \<Longrightarrow> \<bar>z (fst (bounds_check (p, v)))\<bar> < bound \<Longrightarrow>
     bounds_check (p, v) = (p, v)"
  by (simp add: bounds_check_def bound_def abs_mult split: if_splits)

lemma frame_no_reset:
  "\<not> keys ''KeyR'' \<Longrightarrow>
   fst (useCarController_frame delta keys s) =
     (let vel = apply_throttle delta keys (rotation s) (velocity s);
          pv = bounds_check (add (position s) (multiplyScalar vel delta), vel)
      in \<lparr>position = fst pv, velocity = multiplyScalar (snd pv) friction,
          isBraking = (throttle keys < 0), rotation = steer delta keys (rotation s)\<rparr>)"
  by (simp add: useCarController_frame_def Let_def split_def)

text \<open>
  Claim C9.  In a frame in which the reset key \<^verbatim>\<open>KeyR\<close> is held, whatever the other
  keys, the time delta and the prior state are, the update sets the velocity to zero, the
  position to the origin \<open>(0, 0.5, 0)\<close> and the heading to zero, and does nothing else:
  the braking flag keeps its value, no throttle, steering, bounds check or friction is
  applied, and the engine sound is not updated.
\<close>

theorem reset_frame:
  "keys ''KeyR'' \<Longrightarrow>
   useCarController_frame delta keys s =
     (\<lparr>position = Vector3 0 0.5 0, velocity = Vector3 0 0 0, isBraking = isBraking s,
       rotation = 0\<rparr>, None)"
  by (simp add: useCarController_frame_def)

theorem reset_frame_witness:
  "useCarController_frame (1/60) ((\<lambda>_. False)(''KeyR'' := True, ''ArrowUp'' := True, ''KeyA'' := True))
     \<lparr>position = Vector3 96 0.5 (- 40), velocity = Vector3 30 0 (- 7), isBraking = True,
      rotation = 2\<rparr>
   = (\<lparr>position = Vector3 0 0.5 0, velocity = Vector3 0 0 0, isBraking = True, rotation = 0\<rparr>,
      None)"
  using reset_frame [of "(\<lambda>_. False)(''KeyR'' := True, ''ArrowUp'' := True, ''KeyA'' := True)"
      "1/60" "\<lparr>position = Vector3 96 0.5 (- 40), velocity = Vector3 30 0 (- 7), isBraking = True,
      rotation = 2\<rparr>"]
  by simp

lemma frame_coast:
  assumes "no_input keys"
    and "\<bar>x (position (fst (useCarController_frame delta keys s)))\<bar> < bound"
    and "\<bar>z (position (fst (useCarController_frame delta keys s)))\<bar> < bound"
  shows "velocity (fst (useCarController_frame delta keys s)) = multiplyScalar (velocity s) friction"
proof -
  from assms(1) have r: "\<not> keys ''KeyR''" and t: "throttle keys = 0"
    by (simp_all add: no_input_def throttle_no_input)
  have a: "apply_throttle delta keys (rotation s) (velocity s) = velocity s"
    using t by (simp add: apply_throttle_def)
  let ?p = "add (position s) (multiplyScalar (velocity s) delta)"
  have "bounds_check (?p, velocity s) = (?p, velocity s)"
    using assms(2,3) by (intro bounds_check_inside) (simp_all add: frame_no_reset r a Let_def)
  then show ?thesis
    by (simp add: frame_no_reset r a Let_def)
qed

lemma coasting_velocity:
  "coasting frames s \<Longrightarrow>
     velocity (car_run frames s) = multiplyScalar (velocity s) (friction ^ length frames)"
proof (induction frames arbitrary: s)
  case Nil
  show ?case by (simp add: multiplyScalar_def)
next
  case (Cons f fs)
  let ?s' = "fst (useCarController_frame (fst f) (snd f) s)"
  from Cons.prems have c: "coasting fs ?s'" and v: "velocity ?s' = multiplyScalar (velocity s) friction"
    by (simp_all add: Let_def frame_coast)
  show ?case
    using Cons.IH [OF c] by (simp add: v multiplyScalar_def mult.assoc)
qed


lemma coasting_take: "coasting frames s \<Longrightarrow> coasting (take k frames) s"
proof (induction frames arbitrary: s k)
  case Nil
  show ?case by simp
next
  case (Cons f fs)
  then show ?case by (cases k) (simp_all add: Let_def)
qed

lemma friction_power_le: "j \<le> k \<Longrightarrow> friction ^ k \<le> friction ^ j"
  by (rule power_decreasing) (simp_all add: friction_def)

text \<open>
  Claim C2.  After the per-frame update of the vehicle, from any prior state and with any
  keys held, the position lies within 95 of the origin on both planar axes.  In a frame
  without reset, when the integrated position exceeds 95 in absolute value on an axis,
  the position on that axis is set to the bound with the sign of the integrated position,
  and the bounds check replaces the velocity component on that axis by minus one half of
  it; the velocity stored at the end of the frame is that value times the friction
  factor 0.97, which the same frame applies afterwards.
\<close>

theorem vehicle_bounds:
  "\<bar>x (position (fst (useCarController_frame delta keys s)))\<bar> \<le> 95
   \<and> \<bar>z (position (fst (useCarController_frame delta keys s)))\<bar> \<le> 95
   \<and> (\<not> keys ''KeyR'' \<longrightarrow>
        (let vel = apply_throttle delta keys (rotation s) (velocity s);
             newPos = add (position s) (multiplyScalar vel delta);
             s' = fst (useCarController_frame delta keys s)
         in (95 < \<bar>x newPos\<bar> \<longrightarrow>
               x (position s') = sgn (x newPos) * 95
               \<and> x (snd (bounds_check (newPos, vel))) = - (x vel / 2)
               \<and> x (velocity s') = - (x vel / 2) * 0.97)
          \<and> (95 < \<bar>z newPos\<bar> \<longrightarrow>
               z (position s') = sgn (z newPos) * 95
               \<and> z (snd (bounds_check (newPos, vel))) = - (z vel / 2)
               \<and> z (velocity s') = - (z vel / 2) * 0.97)))"
proof (cases "keys ''KeyR''")
  case True
  then show ?thesis
    by (simp add: useCarController_frame_def Vector3_def)
next
  case False
  let ?vel = "apply_throttle delta keys (rotation s) (velocity s)"
  let ?newPos = "add (position s) (multiplyScalar ?vel delta)"
  have s': "fst (useCarController_frame delta keys s) =
      \<lparr>position = fst (bounds_check (?newPos, ?vel)),
       velocity = multiplyScalar (snd (bounds_check (?newPos, ?vel))) friction,
       isBraking = (throttle keys < 0), rotation = steer delta keys (rotation s)\<rparr>"
    using False by (simp add: frame_no_reset Let_def)
  have b: "\<bar>x (fst (bounds_check (?newPos, ?vel)))\<bar> \<le> 95"
          "\<bar>z (fst (bounds_check (?newPos, ?vel)))\<bar> \<le> 95"
    using bounds_check_position [of ?newPos ?vel] by (simp_all add: bound_def)
  have bx: "95 < \<bar>x ?newPos\<bar> \<Longrightarrow>
      x (fst (bounds_check (?newPos, ?vel))) = sgn (x ?newPos) * 95
      \<and> x (snd (bounds_check (?newPos, ?vel))) = - (x ?vel / 2)"
    using bounds_check_x [of ?newPos ?vel] by (simp add: bound_def)
  have bz: "95 < \<bar>z ?newPos\<bar> \<Longrightarrow>
      z (fst (bounds_check (?newPos, ?vel))) = sgn (z ?newPos) * 95
      \<and> z (snd (bounds_check (?newPos, ?vel))) = - (z ?vel / 2)"
    using bounds_check_z [of ?newPos ?vel] by (simp add: bound_def)
  show ?thesis
    unfolding Let_def s' using b bx bz
    by (simp add: multiplyScalar_def friction_def)
qed

theorem vehicle_bounds_witness:
  "(let s = \<lparr>position = Vector3 94 0.5 0, velocity = Vector3 20 0 0, isBraking = False,
             rotation = 0\<rparr>;
        s' = fst (useCarController_frame (1/10) (\<lambda>_. False) s)
    in x (position s') = 95 \<and> x (velocity s') = - 10 * 0.97)"
  using vehicle_bounds [of "1/10" "\<lambda>_. False"
      "\<lparr>position = Vector3 94 0.5 0, velocity = Vector3 20 0 0, isBraking = False, rotation = 0\<rparr>"]
  by (simp add: Let_def apply_throttle_def throttle_def add_def multiplyScalar_def Vector3_def)

text \<open>
  Claim C5.  Over a run of frames in which no movement, steering or reset key is held and
  the position stays strictly inside the bound after every frame, the speed after the run
  is the initial speed times 0.97 to the number of frames, for every initial velocity and
  all time deltas; along the run the speed never increases from one frame to a later one.
\<close>

theorem coasting_decay:
  assumes "coasting frames s"
  shows "vlength (velocity (car_run frames s)) = vlength (velocity s) * 0.97 ^ length frames
    \<and> (\<forall>j k. j \<le> k \<and> k \<le> length frames \<longrightarrow>
         vlength (velocity (car_run (take k frames) s))
           \<le> vlength (velocity (car_run (take j frames) s)))"
proof -
  have speed: "vlength (velocity (car_run (take k frames) s))
      = vlength (velocity s) * friction ^ k" if "k \<le> length frames" for k
    using coasting_velocity [OF coasting_take [OF assms], of k] that
    by (simp add: vlength_multiplyScalar friction_def min_def)
  have "vlength (velocity (car_run (take k frames) s))
      \<le> vlength (velocity (car_run (take j frames) s))"
    if "j \<le> k" "k \<le> length frames" for j k
    using that speed [of j] speed [of k] friction_power_le [of j k]
    by (simp add: mult_left_mono vlength_nonneg)
  moreover have "vlength (velocity (car_run frames s)) = vlength (velocity s) * 0.97 ^ length frames"
    using speed [of "length frames"] by (simp add: friction_def)
  ultimately show ?thesis by blast
qed

theorem coasting_decay_witness:
  "(let s = \<lparr>position = Vector3 0 0.5 0, velocity = Vector3 0 0 (- 1), isBraking = False,
             rotation = 0\<rparr>;
        frames = [(1/60, \<lambda>_. False), (1/60, \<lambda>_. False)]
    in coasting frames s \<and> vlength (velocity (car_run frames s)) = 0.97 ^ 2)"
proof -
  let ?s = "\<lparr>position = Vector3 0 0.5 0, velocity = Vector3 0 0 (- 1), isBraking = False,
             rotation = 0\<rparr>"
  let ?frames = "[(1/60, \<lambda>_. False), (1/60, \<lambda>_. False)] :: (real \<times> keys) list"
  have c: "coasting ?frames ?s"
    by (simp add: Let_def no_input_def useCarController_frame_def apply_throttle_def throttle_def
        bounds_check_def bound_def add_def multiplyScalar_def Vector3_def friction_def steer_def)
  have l: "vlength (velocity ?s) = 1"
    by (simp add: vlength_def Vector3_def)
  from coasting_decay [OF c]
  have "vlength (velocity (car_run ?frames ?s)) = vlength (velocity ?s) * 0.97 ^ length ?frames"
    by (rule conjunct1)
  then have "vlength (velocity (car_run ?frames ?s)) = 0.97 ^ 2"
    unfolding l by (simp del: car_run.simps add: power2_eq_square)
  with c show ?thesis
    unfolding Let_def by blast
qed

section \<open>Properties of the camera rig\<close>

text \<open>
  Claim C8.  A wheel event leaves the zoom distance as it is while an overlay panel is
  open.  Otherwise the new distance is the old one plus 0.02 times the scroll delta,
  clamped to the interval from 5 to 40: a sum above 40 gives exactly 40, a sum below 5
  gives exactly 5, a sum in between is kept, and a distance that lies in the interval
  before the event lies in it afterwards, overlay or not.
\<close>

theorem onWheel_clamps:
  "onWheel True deltaY d = d
   \<and> onWheel False deltaY d = clamp (d + 0.02 * deltaY) 5 40
   \<and> (40 < d + 0.02 * deltaY \<longrightarrow> onWheel False deltaY d = 40)
   \<and> (d + 0.02 * deltaY < 5 \<longrightarrow> onWheel False deltaY d = 5)
   \<and> (5 \<le> d + 0.02 * deltaY \<and> d + 0.02 * deltaY \<le> 40
        \<longrightarrow> onWheel False deltaY d = d + 0.02 * deltaY)
   \<and> 5 \<le> onWheel False deltaY d \<and> onWheel False deltaY d \<le> 40
   \<and> (5 \<le> d \<and> d \<le> 40
        \<longrightarrow> 5 \<le> onWheel overlay deltaY d \<and> onWheel overlay deltaY d \<le> 40)"
  by (simp add: onWheel_def clamp_def mult.commute)

theorem onWheel_clamps_witness:
  "onWheel False 1500 20 = 40 \<and> onWheel False (-1500) 20 = 5
   \<and> onWheel False 100 20 = 22 \<and> onWheel True 1500 20 = 20"
  using onWheel_clamps [of 1500 20 False] onWheel_clamps [of "-1500" 20 False]
    onWheel_clamps [of 100 20 False]
  by simp

section \<open>Properties of the proximity triggers\<close>

subsection \<open>The active flag\<close>

lemma sqrt_less_6: "sqrt a < 6 \<longleftrightarrow> a < 36"
proof -
  have "sqrt 36 = 6"
    using real_sqrt_abs2 [of 6] by simp
  then show ?thesis
    using real_sqrt_less_iff [of a 36] by simp
qed

lemma distanceTo_less_6:
  "distanceTo a b < 6 \<longleftrightarrow>
     (x a - x b) * (x a - x b) + (y a - y b) * (y a - y b) + (z a - z b) * (z a - z b) < 36"
  by (simp add: distanceTo_def vlength_def subVectors_def sqrt_less_6)

lemma planar_distance_square:
  "planar_distance a b * planar_distance a b
     = (x a - x b) * (x a - x b) + (z a - z b) * (z a - z b)"
  by (simp add: planar_distance_def)

lemma planar_distance_nonneg: "0 \<le> planar_distance a b"
  by (simp add: planar_distance_def)

text \<open>
  Claim C4, as stated, fails: the flag compares the distance in space, which includes the
  height difference between the vehicle (at 0.5) and the zone centre (at 0), so a vehicle
  at planar distance 5.99 from a zone is not active.
\<close>

theorem SectionTrigger_planar_counterexample:
  "planar_distance (Vector3 5.99 0.5 (- 25)) (Vector3 0 0 (- 25)) < 6
   \<and> \<not> SectionTrigger_active (Vector3 5.99 0.5 (- 25)) (Vector3 0 0 (- 25))"
proof -
  have "planar_distance (Vector3 5.99 0.5 (- 25)) (Vector3 0 0 (- 25)) = 5.99"
    using real_sqrt_abs2 [of "5.99"] by (simp add: planar_distance_def Vector3_def)
  then show ?thesis
    by (simp add: SectionTrigger_active_def distanceTo_less_6 Vector3_def)
qed

text \<open>
  Claim C4, amended.  For every zone and every vehicle position, the flag is true exactly
  when the distance in space between the vehicle and the zone centre is below 6, that is,
  when the square of the planar distance plus the square of the height difference is
  below 36.  For the vehicle at height 0.5 and a zone at height 0 this is a planar
  distance whose square is below 35.75.  The flag is true when the vehicle is above the
  zone centre by less than 6, and false when the planar distance is 6 or more.
\<close>

theorem SectionTrigger_active_iff:
  "(SectionTrigger_active carPos zonePos \<longleftrightarrow>
      (planar_distance carPos zonePos)\<^sup>2 + (y carPos - y zonePos)\<^sup>2 < 36)
   \<and> (y carPos = 0.5 \<and> y zonePos = 0 \<longrightarrow>
        (SectionTrigger_active carPos zonePos \<longleftrightarrow> (planar_distance carPos zonePos)\<^sup>2 < 35.75))
   \<and> (x carPos = x zonePos \<and> z carPos = z zonePos \<and> \<bar>y carPos - y zonePos\<bar> < 6 \<longrightarrow>
        SectionTrigger_active carPos zonePos)
   \<and> (6 \<le> planar_distance carPos zonePos \<longrightarrow> \<not> SectionTrigger_active carPos zonePos)"
proof -
  have a: "SectionTrigger_active carPos zonePos \<longleftrightarrow>
      (planar_distance carPos zonePos)\<^sup>2 + (y carPos - y zonePos)\<^sup>2 < 36"
  proof -
    have "(planar_distance carPos zonePos)\<^sup>2 + (y carPos - y zonePos)\<^sup>2
        = (x carPos - x zonePos) * (x carPos - x zonePos)
          + (y carPos - y zonePos) * (y carPos - y zonePos)
          + (z carPos - z zonePos) * (z carPos - z zonePos)"
      by (simp add: planar_distance_square power2_eq_square)
    then show ?thesis
      by (simp add: SectionTrigger_active_def distanceTo_less_6)
  qed
  have b: "SectionTrigger_active carPos zonePos \<longleftrightarrow> (planar_distance carPos zonePos)\<^sup>2 < 35.75"
    if "y carPos = 0.5" "y zonePos = 0"
  proof -
    have "(y carPos - y zonePos)\<^sup>2 = (0.5)\<^sup>2"
      by (simp only: that diff_zero)
    then have "(y carPos - y zonePos)\<^sup>2 = 1 / 4"
      by (simp add: power2_eq_square)
    then show ?thesis
      unfolding a by auto
  qed
  have c: "SectionTrigger_active carPos zonePos"
    if "x carPos = x zonePos" "z carPos = z zonePos" "\<bar>y carPos - y zonePos\<bar> < 6"
  proof -
    have "\<bar>y carPos - y zonePos\<bar>\<^sup>2 < 6\<^sup>2"
      using that(3) by (intro power_strict_mono) simp_all
    then have "(y carPos - y zonePos)\<^sup>2 < 36"
      by simp
    then show ?thesis
      using that(1,2) by (simp add: a planar_distance_square power2_eq_square)
  qed
  have d: "\<not> SectionTrigger_active carPos zonePos" if "6 \<le> planar_distance carPos zonePos"
  proof -
    have "6\<^sup>2 \<le> (planar_distance carPos zonePos)\<^sup>2"
      using that by (intro power_mono) simp_all
    then have "36 \<le> (planar_distance carPos zonePos)\<^sup>2"
      by simp
    moreover have "0 \<le> (y carPos - y zonePos)\<^sup>2" by simp
    ultimately show ?thesis
      unfolding a by linarith
  qed
  from a b c d show ?thesis by blast
qed

theorem SectionTrigger_active_iff_witness:
  "SectionTrigger_active (Vector3 0 0.5 (- 25)) (Vector3 0 0 (- 25))
   \<and> \<not> SectionTrigger_active (Vector3 0 0.5 (- 18.99)) (Vector3 0 0 (- 25))"
proof -
  have "planar_distance (Vector3 0 0.5 (- 18.99)) (Vector3 0 0 (- 25)) = 6.01"
    using real_sqrt_abs2 [of "6.01"] by (simp add: planar_distance_def Vector3_def)
  then have "\<not> SectionTrigger_active (Vector3 0 0.5 (- 18.99)) (Vector3 0 0 (- 25))"
    using SectionTrigger_active_iff [of "Vector3 0 0.5 (- 18.99)" "Vector3 0 0 (- 25)",
        THEN conjunct2, THEN conjunct2, THEN conjunct2]
    by simp
  moreover have "SectionTrigger_active (Vector3 0 0.5 (- 25)) (Vector3 0 0 (- 25))"
    using SectionTrigger_active_iff [of "Vector3 0 0.5 (- 25)" "Vector3 0 0 (- 25)",
        THEN conjunct2, THEN conjunct2, THEN conjunct1]
    by (simp add: Vector3_def)
  ultimately show ?thesis by simp
qed


subsection \<open>The interaction key\<close>

text \<open>
  \<^const>\<open>List.find\<close> returns the first element that satisfies the predicate; and no
  two of the five zones are within the activation radius of one point, since any two of
  them differ by at least 16 in one planar coordinate.
\<close>

lemma find_first:
  "(\<forall>u\<in>set pre. \<not> P u) \<Longrightarrow> P t \<Longrightarrow> List.find P (pre @ t # post) = Some t"
  by (induction pre) simp_all

lemma find_split:
  "List.find P ts = Some t \<Longrightarrow> \<exists>pre post. ts = pre @ t # post \<and> P t \<and> (\<forall>u\<in>set pre. \<not> P u)"
proof (induction ts)
  case Nil
  then show ?case by simp
next
  case (Cons a ts)
  show ?case
  proof (cases "P a")
    case True
    with Cons.prems have "a # ts = [] @ t # ts \<and> P t \<and> (\<forall>u\<in>set []. \<not> P u)"
      by simp
    then show ?thesis by blast
  next
    case False
    with Cons obtain pre post where "ts = pre @ t # post" "P t" "\<forall>u\<in>set pre. \<not> P u"
      by auto
    with False have "a # ts = (a # pre) @ t # post \<and> P t \<and> (\<forall>u\<in>set (a # pre). \<not> P u)"
      by simp
    then show ?thesis by blast
  qed
qed

lemma find_member: "List.find P ts = Some t \<Longrightarrow> t \<in> set ts \<and> P t"
  by (induction ts) (auto split: if_splits)

lemma find_none: "(\<forall>u\<in>set ts. \<not> P u) \<Longrightarrow> List.find P ts = None"
  by (induction ts) simp_all

lemma square_less_36:
  fixes a :: real
  assumes "a * a + b * b + c * c < 36"
  shows "\<bar>a\<bar> < 6"
proof (rule ccontr)
  assume "\<not> \<bar>a\<bar> < 6"
  then have "6\<^sup>2 \<le> \<bar>a\<bar>\<^sup>2"
    by (intro power_mono) simp_all
  then have "36 \<le> a * a"
    by (simp add: power2_eq_square)
  moreover have "0 \<le> b * b" "0 \<le> c * c"
    by simp_all
  ultimately show False
    using assms by linarith
qed

lemma within_radius_components:
  assumes "within_radius carPos t"
  shows "\<bar>x (pos t) - x carPos\<bar> < 6" and "\<bar>z (pos t) - z carPos\<bar> < 6"
proof -
  from assms have d: "(x (pos t) - x carPos) * (x (pos t) - x carPos)
      + (y (pos t) - y carPos) * (y (pos t) - y carPos)
      + (z (pos t) - z carPos) * (z (pos t) - z carPos) < 36"
    by (simp add: within_radius_def distanceTo_less_6)
  from d show "\<bar>x (pos t) - x carPos\<bar> < 6"
    by (rule square_less_36)
  from d have "(z (pos t) - z carPos) * (z (pos t) - z carPos)
      + (y (pos t) - y carPos) * (y (pos t) - y carPos)
      + (x (pos t) - x carPos) * (x (pos t) - x carPos) < 36"
    by simp
  then show "\<bar>z (pos t) - z carPos\<bar> < 6"
    by (rule square_less_36)
qed

lemma triggers_separated:
  assumes "t \<in> set triggers" "u \<in> set triggers"
    and "\<bar>x (pos t) - a\<bar> < 6" "\<bar>z (pos t) - c\<bar> < 6"
    and "\<bar>x (pos u) - a\<bar> < 6" "\<bar>z (pos u) - c\<bar> < 6"
  shows "t = u"
proof -
  have b: "a - 6 < x (pos t)" "x (pos t) < a + 6" "c - 6 < z (pos t)" "z (pos t) < c + 6"
    "a - 6 < x (pos u)" "x (pos u) < a + 6" "c - 6 < z (pos u)" "z (pos u) < c + 6"
    using assms(3-6) by (simp_all add: abs_diff_less_iff)
  from assms(1,2) have
    "(t = triggers ! 0 \<or> t = triggers ! 1 \<or> t = triggers ! 2 \<or> t = triggers ! 3
        \<or> t = triggers ! 4)
     \<and> (u = triggers ! 0 \<or> u = triggers ! 1 \<or> u = triggers ! 2 \<or> u = triggers ! 3
        \<or> u = triggers ! 4)"
    by (simp add: triggers_def)
  moreover have p: "pos (triggers ! 0) = Vector3 0 0 (- 25)" "pos (triggers ! 1) = Vector3 25 0 0"
    "pos (triggers ! 2) = Vector3 0 0 25" "pos (triggers ! 3) = Vector3 (- 25) 0 (- 8)"
    "pos (triggers ! 4) = Vector3 (- 25) 0 8"
    by (simp_all add: triggers_def)
  ultimately show ?thesis
    using b by (elim conjE disjE) (simp_all add: p Vector3_def)
qed

lemma triggers_unique:
  assumes "t \<in> set triggers" "u \<in> set triggers"
    and "within_radius carPos t" "within_radius carPos u"
  shows "t = u"
  using assms(1,2) within_radius_components [OF assms(3)] within_radius_components [OF assms(4)]
  by (rule triggers_separated)


lemma handleKeyDown_Some:
  "handleKeyDown key ts carPos = Some sec \<longleftrightarrow>
     key = ''Enter'' \<and> (\<exists>t. List.find (within_radius carPos) ts = Some t \<and> trigger_section t = sec)"
  by (auto simp: handleKeyDown_def split: option.splits)

text \<open>
  Claim C3, as stated, fails for a configuration with two zones within the radius: the
  handler takes the first one in the order of the list, which need not be the nearest.
\<close>

theorem handleKeyDown_nearest_counterexample:
  "handleKeyDown ''Enter''
     [\<lparr>pos = Vector3 0 0 5, trigger_section = ABOUT, trigger_text = ''About Me'',
        color = ''#6366f1'', subtext = ''The Developer''\<rparr>,
      \<lparr>pos = Vector3 0 0 0, trigger_section = SKILLS, trigger_text = ''Skills'',
        color = ''#10b981'', subtext = ''Tech Stack''\<rparr>]
     (Vector3 0 0.5 0) = Some ABOUT
   \<and> within_radius (Vector3 0 0.5 0)
        \<lparr>pos = Vector3 0 0 0, trigger_section = SKILLS, trigger_text = ''Skills'',
          color = ''#10b981'', subtext = ''Tech Stack''\<rparr>
   \<and> distanceTo (Vector3 0 0 0) (Vector3 0 0.5 0) < distanceTo (Vector3 0 0 5) (Vector3 0 0.5 0)"
proof -
  let ?far = "\<lparr>pos = Vector3 0 0 5, trigger_section = ABOUT, trigger_text = ''About Me'',
                color = ''#6366f1'', subtext = ''The Developer''\<rparr>"
  let ?near = "\<lparr>pos = Vector3 0 0 0, trigger_section = SKILLS, trigger_text = ''Skills'',
                 color = ''#10b981'', subtext = ''Tech Stack''\<rparr>"
  let ?carPos = "Vector3 0 0.5 0"
  have f: "within_radius ?carPos ?far" and n: "within_radius ?carPos ?near"
    by (simp_all add: within_radius_def distanceTo_less_6 Vector3_def)
  have "handleKeyDown ''Enter'' [?far, ?near] ?carPos = Some ABOUT"
    using f by (simp add: handleKeyDown_def)
  moreover have "distanceTo (Vector3 0 0 0) ?carPos < distanceTo (Vector3 0 0 5) ?carPos"
    by (simp add: distanceTo_def vlength_def subVectors_def Vector3_def)
  ultimately show ?thesis
    using n by blast
qed

text \<open>
  Claim C3, amended.  On a key press, for every vehicle position and every list of zones,
  an event is emitted only for the key \<^verbatim>\<open>Enter\<close>, and the zone whose section is emitted
  is the first zone of the list, in scan order, that is within the activation radius (at
  distance in space below 6); no event is emitted when no zone is within the radius.  For
  the five zones of the repository the emitted zone is the only zone within the radius and
  is nearest to the vehicle among all zones.
\<close>

theorem handleKeyDown_first_match:
  "(handleKeyDown key ts carPos = Some sec \<longrightarrow>
      key = ''Enter''
      \<and> (\<exists>pre t post. ts = pre @ t # post \<and> (\<forall>u\<in>set pre. \<not> within_radius carPos u)
            \<and> within_radius carPos t \<and> trigger_section t = sec))
   \<and> ((\<forall>u\<in>set pre. \<not> within_radius carPos u) \<and> within_radius carPos t \<longrightarrow>
        handleKeyDown ''Enter'' (pre @ t # post) carPos = Some (trigger_section t))
   \<and> ((\<forall>u\<in>set ts. \<not> within_radius carPos u) \<longrightarrow> handleKeyDown key ts carPos = None)
   \<and> (key \<noteq> ''Enter'' \<longrightarrow> handleKeyDown key ts carPos = None)
   \<and> (handleKeyDown ''Enter'' triggers carPos = Some sec \<longrightarrow>
        (\<exists>t\<in>set triggers. trigger_section t = sec \<and> within_radius carPos t
           \<and> (\<forall>u\<in>set triggers. within_radius carPos u \<longrightarrow> u = t)
           \<and> (\<forall>u\<in>set triggers. distanceTo (pos t) carPos \<le> distanceTo (pos u) carPos)))"
proof -
  have a: "key = ''Enter''
      \<and> (\<exists>pre t post. ts = pre @ t # post \<and> (\<forall>u\<in>set pre. \<not> within_radius carPos u)
            \<and> within_radius carPos t \<and> trigger_section t = sec)"
    if "handleKeyDown key ts carPos = Some sec"
  proof -
    from that obtain t where k: "key = ''Enter''"
      and f: "List.find (within_radius carPos) ts = Some t" and s: "trigger_section t = sec"
      by (auto simp: handleKeyDown_Some)
    from find_split [OF f] s k show ?thesis by blast
  qed
  have b: "handleKeyDown ''Enter'' (pre @ t # post) carPos = Some (trigger_section t)"
    if "\<forall>u\<in>set pre. \<not> within_radius carPos u" "within_radius carPos t"
    using find_first [of pre "within_radius carPos" t post] that
    by (simp add: handleKeyDown_def)
  have c: "handleKeyDown key ts carPos = None" if "\<forall>u\<in>set ts. \<not> within_radius carPos u"
    using find_none [of ts "within_radius carPos"] that by (simp add: handleKeyDown_def)
  have d: "handleKeyDown key ts carPos = None" if "key \<noteq> ''Enter''"
    using that by (simp add: handleKeyDown_def)
  have e: "\<exists>t\<in>set triggers. trigger_section t = sec \<and> within_radius carPos t
           \<and> (\<forall>u\<in>set triggers. within_radius carPos u \<longrightarrow> u = t)
           \<and> (\<forall>u\<in>set triggers. distanceTo (pos t) carPos \<le> distanceTo (pos u) carPos)"
    if "handleKeyDown ''Enter'' triggers carPos = Some sec"
  proof -
    from that obtain t where f: "List.find (within_radius carPos) triggers = Some t"
      and s: "trigger_section t = sec"
      by (auto simp: handleKeyDown_Some)
    from find_member [OF f] have m: "t \<in> set triggers" and w: "within_radius carPos t"
      by simp_all
    have u: "u = t" if "u \<in> set triggers" "within_radius carPos u" for u
      using that(1) m that(2) w by (rule triggers_unique)
    have "distanceTo (pos t) carPos \<le> distanceTo (pos u) carPos" if "u \<in> set triggers" for u
    proof (cases "within_radius carPos u")
      case True
      with that u show ?thesis by simp
    next
      case False
      with w show ?thesis by (simp add: within_radius_def)
    qed
    with m s w u show ?thesis by blast
  qed
  from a b c d e show ?thesis by blast
qed

theorem handleKeyDown_first_match_witness:
  "handleKeyDown ''Enter'' triggers (Vector3 (- 25) 0.5 5) = Some IMAGE_EDITOR
   \<and> handleKeyDown ''Enter'' triggers (Vector3 0 0.5 0) = None"
proof -
  have w: "within_radius (Vector3 (- 25) 0.5 5) (triggers ! 4)"
    and n: "\<forall>u\<in>set (take 4 triggers). \<not> within_radius (Vector3 (- 25) 0.5 5) u"
    and o: "\<forall>u\<in>set triggers. \<not> within_radius (Vector3 0 0.5 0) u"
    by (simp_all add: triggers_def within_radius_def distanceTo_less_6 Vector3_def)
  have t: "triggers = take 4 triggers @ triggers ! 4 # []"
    by (simp add: triggers_def)
  have "handleKeyDown ''Enter'' (take 4 triggers @ triggers ! 4 # []) (Vector3 (- 25) 0.5 5)
      = Some (trigger_section (triggers ! 4))"
    using handleKeyDown_first_match [of _ _ "Vector3 (- 25) 0.5 5" _ "take 4 triggers"
        "triggers ! 4" "[]"] n w
    by blast
  then have "handleKeyDown ''Enter'' triggers (Vector3 (- 25) 0.5 5) = Some IMAGE_EDITOR"
    unfolding t [symmetric] by (simp add: triggers_def)
  moreover have "handleKeyDown ''Enter'' triggers (Vector3 0 0.5 0) = None"
    using handleKeyDown_first_match [of "''Enter''" triggers "Vector3 0 0.5 0"] o
    by blast
  ultimately show ?thesis by simp
qed

section \<open>Properties of the crate system\<close>

subsection \<open>The physics step and the frame of a grounded crate\<close>

text \<open>
  The physics step allocates one object (the clone of the velocity), writes the crate's
  three objects and leaves every other allocated object as it is.
\<close>

lemmas store_ops = update_obj_def new_Vector3_def clone_obj_def multiplyScalar_obj_def add_obj_def
  subVectors_obj_def normalize_obj_def copy_obj_def set_x_def set_y_def set_z_def playImpact_def

lemma crate_collision_miss:
  "\<not> collides carApi crate st \<Longrightarrow> crate_collision carApi crate st = st"
  by (simp add: crate_collision_def collides_def Let_def)

lemma crate_physics_fresh: "fresh (crate_physics delta crate st) = Suc (fresh st)"
  by (simp add: crate_physics_def store_ops Let_def split_def)



lemma crate_physics_others:
  "r \<noteq> crate_position crate \<Longrightarrow> r \<noteq> crate_velocity crate \<Longrightarrow> r \<noteq> crate_rotation crate
     \<Longrightarrow> r < fresh st \<Longrightarrow> objs (crate_physics delta crate st) r = objs st r"
  by (auto simp: crate_physics_def store_ops Let_def split_def)

lemma allocated_distinct:
  assumes "allocated carApi crate mesh st"
  shows "crate_position crate \<noteq> crate_velocity crate"
    and "crate_position crate \<noteq> crate_rotation crate"
    and "crate_velocity crate \<noteq> crate_rotation crate"
    and "crate_position crate < fresh st" and "crate_velocity crate < fresh st"
    and "mesh_position mesh \<noteq> crate_position crate"
    and "mesh_position mesh \<noteq> crate_velocity crate"
    and "mesh_rotation mesh \<noteq> crate_position crate"
    and "mesh_rotation mesh \<noteq> crate_velocity crate"
    and "mesh_position mesh \<noteq> mesh_rotation mesh"
    and "api_position carApi \<noteq> crate_position crate"
    and "api_position carApi \<noteq> crate_velocity crate"
    and "api_velocity carApi \<noteq> crate_position crate"
    and "api_velocity carApi \<noteq> crate_velocity crate"
  using assms by (auto simp: allocated_def)

lemma allocated_mono:
  "allocated carApi crate mesh st \<Longrightarrow> fresh st \<le> fresh st' \<Longrightarrow> allocated carApi crate mesh st'"
  by (auto simp: allocated_def)

lemma drive_fresh: "fresh (drive carPos carVel carApi st) = fresh st"
  by (simp add: drive_def update_obj_def)

lemma drive_others:
  "r \<noteq> api_position carApi \<Longrightarrow> r \<noteq> api_velocity carApi
     \<Longrightarrow> objs (drive carPos carVel carApi st) r = objs st r"
  by (simp add: drive_def update_obj_def)

lemma allocated_drive:
  "allocated carApi crate mesh st \<Longrightarrow> allocated carApi crate mesh (drive carPos carVel carApi st)"
  using allocated_mono [of carApi crate mesh st "drive carPos carVel carApi st"]
  by (simp add: drive_fresh)



lemmas scene_defs = scene_def scene_crate_def scene_mesh_def scene_car_def

lemma scene_allocated: "allocated scene_car scene_crate scene_mesh (scene p)"
  by (simp add: allocated_def scene_defs)

subsection \<open>The collision response\<close>

text \<open>
  In a collision the crate's velocity grows by the vector \<^const>\<open>impulse\<close>, and its
  position by the overlap times that same vector, not by the overlap times the unit
  direction: the clone for \<open>pushOut\<close> is taken from the object after it has been scaled
  and its vertical component overwritten.  The branch is evaluated statement by statement.
\<close>

lemma crate_collision_hit:
  assumes "crate_position crate \<noteq> crate_velocity crate"
    and "crate_position crate < fresh st" "crate_velocity crate < fresh st"
    and "api_position carApi < fresh st" "api_velocity carApi < fresh st"
    and "collides carApi crate st"
  shows "objs (crate_collision carApi crate st) (crate_position crate)
      = add (objs st (crate_position crate))
          (multiplyScalar
             (impulse (objs st (crate_position crate)) (objs st (api_position carApi))
                (objs st (api_velocity carApi)))
             (radius carApi + 0.8
               - distanceTo (objs st (crate_position crate)) (objs st (api_position carApi))))
    \<and> objs (crate_collision carApi crate st) (crate_velocity crate)
      = add (objs st (crate_velocity crate))
          (impulse (objs st (crate_position crate)) (objs st (api_position carApi))
             (objs st (api_velocity carApi)))"
proof -
  have n: "fresh st \<noteq> crate_position crate" "fresh st \<noteq> crate_velocity crate"
    "fresh st \<noteq> api_position carApi" "fresh st \<noteq> api_velocity carApi"
    "crate_position crate \<noteq> fresh st" "crate_velocity crate \<noteq> fresh st"
    "api_position carApi \<noteq> fresh st" "api_velocity carApi \<noteq> fresh st"
    "Suc (fresh st) \<noteq> crate_position crate" "Suc (fresh st) \<noteq> crate_velocity crate"
    "crate_position crate \<noteq> Suc (fresh st)" "crate_velocity crate \<noteq> Suc (fresh st)"
    "crate_velocity crate \<noteq> crate_position crate"
    "crate_position crate \<noteq> crate_velocity crate"
    using assms(1-5) by simp_all
  have c: "distanceTo (objs st (crate_position crate)) (objs st (api_position carApi))
      < radius carApi + 0.8"
    using assms(6) by (simp add: collides_def)
  show ?thesis
    apply (simp only: crate_collision_def Let_def c if_True)
    apply (simp add: new_Vector3_def update_obj_def n)
    apply (simp add: subVectors_obj_def update_obj_def n)
    apply (simp add: normalize_obj_def update_obj_def n)
    apply (simp add: multiplyScalar_obj_def update_obj_def n)
    apply (simp add: set_y_def update_obj_def n)
    apply (simp add: add_obj_def update_obj_def n)
    apply (simp add: clone_obj_def new_Vector3_def update_obj_def n)
    apply (simp add: playImpact_def impulse_def n)
    done
qed

subsection \<open>One frame of the loop body\<close>


lemma crate_physics_grounded_vec:
  assumes "crate_position crate \<noteq> crate_velocity crate"
    and "crate_position crate \<noteq> crate_rotation crate"
    and "crate_velocity crate \<noteq> crate_rotation crate"
    and "crate_position crate < fresh st" "crate_velocity crate < fresh st"
    and "y (objs st (crate_position crate)) \<le> 0.5"
  shows "objs (crate_physics delta crate st) (crate_velocity crate)
           = multiplyScalar ((objs st (crate_velocity crate))\<lparr>y := 0\<rparr>) 0.90"
    and "objs (crate_physics delta crate st) (crate_position crate)
           = add ((objs st (crate_position crate))\<lparr>y := 0.5\<rparr>)
               (multiplyScalar
                  (multiplyScalar ((objs st (crate_velocity crate))\<lparr>y := 0\<rparr>) 0.90) delta)"
  using assms
  by (auto simp: crate_physics_def store_ops Let_def split_def)

lemma crate_collision_others:
  assumes "r \<noteq> crate_position crate" "r \<noteq> crate_velocity crate" "r < fresh st"
    and "crate_position crate < fresh st" "crate_velocity crate < fresh st"
    and "crate_position crate \<noteq> crate_velocity crate"
  shows "objs (crate_collision carApi crate st) r = objs st r"
proof (cases "collides carApi crate st")
  case False
  then show ?thesis by (simp add: crate_collision_miss)
next
  case True
  then have c: "distanceTo (objs st (crate_position crate)) (objs st (api_position carApi))
      < radius carApi + 0.8"
    by (simp add: collides_def)
  have n: "r \<noteq> fresh st" "r \<noteq> Suc (fresh st)"
    "fresh st \<noteq> crate_position crate" "fresh st \<noteq> crate_velocity crate"
    "crate_position crate \<noteq> fresh st" "crate_velocity crate \<noteq> fresh st"
    "Suc (fresh st) \<noteq> crate_position crate" "Suc (fresh st) \<noteq> crate_velocity crate"
    "crate_position crate \<noteq> Suc (fresh st)" "crate_velocity crate \<noteq> Suc (fresh st)"
    "crate_velocity crate \<noteq> crate_position crate"
    using assms(3-6) by simp_all
  show ?thesis
    apply (simp only: crate_collision_def Let_def c if_True)
    apply (simp add: new_Vector3_def update_obj_def n assms)
    apply (simp add: subVectors_obj_def update_obj_def n assms)
    apply (simp add: normalize_obj_def update_obj_def n assms)
    apply (simp add: multiplyScalar_obj_def update_obj_def n assms)
    apply (simp add: set_y_def update_obj_def n assms)
    apply (simp add: add_obj_def update_obj_def n assms)
    apply (simp add: clone_obj_def new_Vector3_def update_obj_def n assms)
    apply (simp add: playImpact_def n assms)
    done
qed

lemma allocated_neq:
  assumes "allocated carApi crate mesh st"
  shows "api_position carApi \<noteq> crate_position crate"
    and "api_position carApi \<noteq> crate_velocity crate"
    and "api_position carApi \<noteq> crate_rotation crate"
    and "api_velocity carApi \<noteq> crate_position crate"
    and "api_velocity carApi \<noteq> crate_velocity crate"
    and "api_velocity carApi \<noteq> crate_rotation crate"
    and "api_position carApi < fresh st" and "api_velocity carApi < fresh st"
    and "crate_position crate \<noteq> mesh_position mesh"
    and "crate_position crate \<noteq> mesh_rotation mesh"
    and "crate_velocity crate \<noteq> mesh_position mesh"
    and "crate_velocity crate \<noteq> mesh_rotation mesh"
    and "api_position carApi \<noteq> mesh_position mesh"
    and "api_position carApi \<noteq> mesh_rotation mesh"
    and "api_velocity carApi \<noteq> mesh_position mesh"
    and "api_velocity carApi \<noteq> mesh_rotation mesh"
    and "mesh_position mesh \<noteq> mesh_rotation mesh"
  using assms by (auto simp: allocated_def)

lemma copy_to_mesh:
  "objs (snd (copy_obj mr cr (snd (copy_obj mp cp c)))) r
     = (if r = mr then (if cr = mp then objs c cp else objs c cr)
        else if r = mp then objs c cp else objs c r)"
  by (simp add: copy_obj_def update_obj_def)

lemma crate_forEach_body_objs:
  fixes delta :: real
  assumes a: "allocated carApi crate mesh st"
  defines "st' \<equiv> crate_forEach_body delta carApi crate (Some mesh) st"
    and "c \<equiv> crate_collision carApi crate (crate_physics delta crate st)"
  shows "objs st' (crate_position crate) = objs c (crate_position crate)"
    and "objs st' (crate_velocity crate) = objs c (crate_velocity crate)"
    and "objs st' (mesh_position mesh) = objs c (crate_position crate)"
    and "objs st' (api_position carApi) = objs st (api_position carApi)"
    and "objs st' (api_velocity carApi) = objs st (api_velocity carApi)"
proof -
  note n = allocated_neq [OF a] and d = allocated_distinct [OF a]
  let ?p = "crate_physics delta crate st"
  have st': "st' = snd (copy_obj (mesh_rotation mesh) (crate_rotation crate)
                (snd (copy_obj (mesh_position mesh) (crate_position crate) c)))"
    by (simp add: st'_def c_def crate_forEach_body_def split_def)
  have f: "api_position carApi < fresh ?p" "api_velocity carApi < fresh ?p"
    "crate_position crate < fresh ?p" "crate_velocity crate < fresh ?p"
    using n(7,8) d(4,5) by (simp_all add: crate_physics_fresh)
  have "objs c (api_position carApi) = objs ?p (api_position carApi)"
    unfolding c_def using n(1,2) f(1,3,4) d(1) by (rule crate_collision_others)
  also have "\<dots> = objs st (api_position carApi)"
    using n(1,2,3,7) by (rule crate_physics_others)
  finally have p: "objs c (api_position carApi) = objs st (api_position carApi)" .
  have "objs c (api_velocity carApi) = objs ?p (api_velocity carApi)"
    unfolding c_def using n(4,5) f(2,3,4) d(1) by (rule crate_collision_others)
  also have "\<dots> = objs st (api_velocity carApi)"
    using n(4,5,6,8) by (rule crate_physics_others)
  finally have v: "objs c (api_velocity carApi) = objs st (api_velocity carApi)" .
  show "objs st' (crate_position crate) = objs c (crate_position crate)"
    and "objs st' (crate_velocity crate) = objs c (crate_velocity crate)"
    and "objs st' (mesh_position mesh) = objs c (crate_position crate)"
    unfolding st' copy_to_mesh using n(9-12,17) by simp_all
  show "objs st' (api_position carApi) = objs st (api_position carApi)"
    and "objs st' (api_velocity carApi) = objs st (api_velocity carApi)"
    unfolding st' copy_to_mesh using n(13-16) p v by simp_all
qed





subsection \<open>The claims about crates\<close>

lemmas vec_ops = add_def multiplyScalar_def subVectors_def distanceTo_def vlength_def Vector3_def
  normalize_def


lemma distanceTo_less:
  assumes "0 < r"
    and "(x p - x q) * (x p - x q) + (y p - y q) * (y p - y q) + (z p - z q) * (z p - z q) < r * r"
  shows "distanceTo p q < r"
proof -
  have "distanceTo p q < sqrt (r * r)"
    unfolding distanceTo_def vlength_def subVectors_def using assms(2)
    by (simp del: real_sqrt_abs2 real_sqrt_mult_self)
  with assms(1) show ?thesis by simp
qed

lemma scene_objs:
  "objs (scene p) (crate_position scene_crate) = p"
  "objs (scene p) (crate_velocity scene_crate) = Vector3 0 0 0"
  "objs (scene p) (api_position scene_car) = Vector3 0 0.5 0"
  "objs (scene p) (api_velocity scene_car) = Vector3 0 0 0"
  by (simp_all add: scene_defs)

lemma crate_step_hit:
  fixes delta :: real and carVel :: vec3
  assumes a: "allocated carApi crate mesh st"
    and g: "y (objs st (crate_position crate)) \<le> 0.5"
  defines "P \<equiv> add ((objs st (crate_position crate))\<lparr>y := 0.5\<rparr>)
               (multiplyScalar
                  (multiplyScalar ((objs st (crate_velocity crate))\<lparr>y := 0\<rparr>) 0.90) delta)"
  assumes h: "distanceTo P carPos < radius carApi + 0.8"
  defines "st' \<equiv> crate_forEach_body delta carApi crate (Some mesh) (drive carPos carVel carApi st)"
  shows "collides carApi crate (crate_physics delta crate (drive carPos carVel carApi st))"
    and "objs st' (crate_position crate)
          = add P (multiplyScalar (impulse P carPos carVel)
                     (radius carApi + 0.8 - distanceTo P carPos))"
    and "objs st' (api_position carApi) = carPos"
proof -
  let ?d = "drive carPos carVel carApi st"
  let ?p = "crate_physics delta crate ?d"
  have ad: "allocated carApi crate mesh ?d"
    using a by (rule allocated_drive)
  note n = allocated_neq [OF ad] and d = allocated_distinct [OF ad]
  have o: "objs ?d (crate_position crate) = objs st (crate_position crate)"
    "objs ?d (crate_velocity crate) = objs st (crate_velocity crate)"
    using n(1,2,4,5) by (simp_all add: drive_others)
  have c: "objs ?d (api_position carApi) = carPos" "objs ?d (api_velocity carApi) = carVel"
    using a by (auto simp: drive_def update_obj_def allocated_def)
  have gd: "y (objs ?d (crate_position crate)) \<le> 0.5"
    using g by (simp add: o)
  have pp: "objs ?p (crate_position crate) = P"
    using crate_physics_grounded_vec(2) [OF d(1-5) gd, of delta] by (simp add: o P_def)
  have pc: "objs ?p (api_position carApi) = carPos"
    using crate_physics_others [OF n(1,2,3,7), of delta] by (simp add: c)
  have pv: "objs ?p (api_velocity carApi) = carVel"
    using crate_physics_others [OF n(4,5,6,8), of delta] by (simp add: c)
  show hit: "collides carApi crate ?p"
    using h by (simp add: collides_def pp pc)
  have f: "crate_position crate < fresh ?p" "crate_velocity crate < fresh ?p"
    "api_position carApi < fresh ?p" "api_velocity carApi < fresh ?p"
    using d(4,5) n(7,8) by (simp_all add: crate_physics_fresh)
  have "objs (crate_collision carApi crate ?p) (crate_position crate)
      = add P (multiplyScalar (impulse P carPos carVel)
                     (radius carApi + 0.8 - distanceTo P carPos))"
    using crate_collision_hit [OF d(1) f hit] by (simp add: pp pc pv)
  then show "objs st' (crate_position crate)
          = add P (multiplyScalar (impulse P carPos carVel)
                     (radius carApi + 0.8 - distanceTo P carPos))"
    using crate_forEach_body_objs(1) [OF ad, of delta] by (simp add: st'_def)
  show "objs st' (api_position carApi) = carPos"
    using crate_forEach_body_objs(4) [OF ad, of delta] by (simp add: st'_def c)
qed





text \<open>
  Claim C6 at two inputs the scene can reach: a crate resting one unit from the vehicle,
  well inside the collision distance 2.8, with the vehicle parked, and with the vehicle
  moving at speed 0.2.  With the vehicle parked the crate is not moved at all; with the
  slow vehicle it is moved to \<open>(1.54, 0.77, 0)\<close>; in both cases it is still inside the
  collision distance after the frame.
\<close>

theorem crate_stuck:
  "(let carPos = Vector3 0 0.5 0;
        parked = crate_run [(1 / 60, carPos, Vector3 0 0 0)] scene_car scene_crate scene_mesh
                   (scene (Vector3 1 0.5 0));
        slow = crate_run [(1 / 60, carPos, Vector3 0 0 (- 0.2))] scene_car scene_crate scene_mesh
                   (scene (Vector3 1 0.5 0))
    in distanceTo (objs (scene (Vector3 1 0.5 0)) (crate_position scene_crate)) carPos
         < radius scene_car + 0.8
       \<and> objs parked (crate_position scene_crate) = Vector3 1 0.5 0
       \<and> objs parked (api_position scene_car) = carPos
       \<and> distanceTo (objs parked (crate_position scene_crate)) (objs parked (api_position scene_car))
           < radius scene_car + 0.8
       \<and> objs slow (crate_position scene_crate) = Vector3 1.54 0.77 0
       \<and> objs slow (api_position scene_car) = carPos
       \<and> distanceTo (objs slow (crate_position scene_crate)) (objs slow (api_position scene_car))
           < radius scene_car + 0.8)"
proof -
  let ?cp = "Vector3 0 0.5 0"
  let ?s = "scene (Vector3 1 0.5 0)"
  let ?P = "add ((objs ?s (crate_position scene_crate))\<lparr>y := 0.5\<rparr>)
               (multiplyScalar
                  (multiplyScalar ((objs ?s (crate_velocity scene_crate))\<lparr>y := 0\<rparr>) 0.90) (1 / 60))"
  let ?parked = "crate_forEach_body (1 / 60) scene_car scene_crate (Some scene_mesh)
      (drive ?cp (Vector3 0 0 0) scene_car ?s)"
  let ?slow = "crate_forEach_body (1 / 60) scene_car scene_crate (Some scene_mesh)
      (drive ?cp (Vector3 0 0 (- 0.2)) scene_car ?s)"
  have r: "radius scene_car = 2"
    by (simp add: scene_defs)
  have a: "allocated scene_car scene_crate scene_mesh ?s"
    by (rule scene_allocated)
  have g: "y (objs ?s (crate_position scene_crate)) \<le> 0.5"
    by (simp add: scene_objs Vector3_def)
  have P: "?P = Vector3 1 0.5 0"
    by (simp add: scene_objs vec_ops)
  have d: "distanceTo (Vector3 1 0.5 0) ?cp = 1"
    by (simp add: vec_ops)
  have h: "distanceTo ?P ?cp < radius scene_car + 0.8"
    unfolding P d by (simp add: r)
  have i0: "impulse (Vector3 1 0.5 0) ?cp (Vector3 0 0 0) = Vector3 0 0 0"
    by (simp add: impulse_def vec_ops)
  have "sqrt ((2 / 10) * (2 / 10)) = \<bar>2 / 10\<bar>"
    by (rule real_sqrt_abs2)
  then have l: "vlength (Vector3 0 0 (- 0.2)) = 2 / 10"
    by (simp add: vlength_def Vector3_def)
  have i1: "impulse (Vector3 1 0.5 0) ?cp (Vector3 0 0 (- 0.2)) = Vector3 0.3 0.15 0"
    unfolding impulse_def l by (simp add: vec_ops)
  note t0 = crate_step_hit [OF a g h, of "Vector3 0 0 0"]
  note t1 = crate_step_hit [OF a g h, of "Vector3 0 0 (- 0.2)"]
  have p0: "objs ?parked (crate_position scene_crate) = Vector3 1 0.5 0"
    unfolding t0(2) P d i0 by (simp add: r vec_ops)
  have p1: "objs ?slow (crate_position scene_crate) = Vector3 1.54 0.77 0"
    unfolding t1(2) P d i1 by (simp add: r vec_ops)
  have c0: "distanceTo (objs ?parked (crate_position scene_crate)) (objs ?parked (api_position scene_car))
      < radius scene_car + 0.8"
    unfolding p0 t0(3) d by (simp add: r)
  have c1: "distanceTo (objs ?slow (crate_position scene_crate)) (objs ?slow (api_position scene_car))
      < radius scene_car + 0.8"
    unfolding p1 t1(3) by (rule distanceTo_less) (simp_all add: r Vector3_def)
  have e: "distanceTo (objs ?s (crate_position scene_crate)) ?cp < radius scene_car + 0.8"
    unfolding scene_objs d by (simp add: r)
  from e p0 t0(3) c0 p1 t1(3) c1 show ?thesis
    by (simp only: Let_def crate_run.simps simp_thms)
qed

section \<open>Properties of the AI gateway\<close>

subsection \<open>The polling loop\<close>

text \<open>
  As long as the observations are pending the loop goes on; it returns at the first
  observation that is an error or is done, and a loop that returns has met one.
\<close>

lemma poll_done: "op_done operation \<Longrightarrow> poll getOp n operation = Some (Inr operation)"
  by (subst poll.simps) simp

lemma poll_step:
  "\<not> op_done operation \<Longrightarrow>
     poll getOp n operation =
       (case getOp n of Inl e \<Rightarrow> Some (Inl e) | Inr operation' \<Rightarrow> poll getOp (Suc n) operation')"
  by (subst poll.simps) simp

lemma pending_Suc:
  "pending getOp n operation (Suc k) \<longleftrightarrow>
     pending getOp n operation k
     \<and> (\<exists>operation'. observed getOp n operation k = Inr operation' \<and> \<not> op_done operation')"
  by (auto simp: pending_def less_Suc_eq)

lemma poll_observed:
  "pending getOp n operation k \<Longrightarrow>
     poll getOp n operation =
       (case observed getOp n operation k of
          Inl e \<Rightarrow> Some (Inl e)
        | Inr operation' \<Rightarrow> poll getOp (n + k) operation')"
proof (induction k)
  case 0
  show ?case by simp
next
  case (Suc k)
  from Suc.prems obtain operation' where p: "pending getOp n operation k"
    and o: "observed getOp n operation k = Inr operation'" and d: "\<not> op_done operation'"
    by (auto simp: pending_Suc)
  from Suc.IH [OF p] have "poll getOp n operation = poll getOp (n + k) operation'"
    by (simp add: o)
  also have "\<dots> = (case getOp (n + k) of Inl e \<Rightarrow> Some (Inl e)
      | Inr operation'' \<Rightarrow> poll getOp (Suc (n + k)) operation'')"
    using d by (rule poll_step)
  finally show ?case by (simp cong: sum.case_cong)
qed

lemma observed_shift:
  "getOp n = Inr operation' \<Longrightarrow>
     observed getOp n operation (Suc k) = observed getOp (Suc n) operation' k"
  by (cases k) simp_all

lemma poll_returns_not_pending:
  "poll getOp n operation = Some r \<Longrightarrow> \<exists>k. \<not> pending getOp n operation k"
proof (induction rule: poll.raw_induct [rotated 1, consumes 1, case_names step])
  case (step poll' getOp n operation r)
  show ?case
  proof (cases "op_done operation")
    case True
    then have "\<not> pending getOp n operation (Suc 0)"
      by (simp add: pending_def)
    then show ?thesis ..
  next
    case False
    show ?thesis
    proof (cases "getOp n")
      case (Inl e)
      then have "\<not> pending getOp n operation (Suc (Suc 0))"
        by (auto simp: pending_def less_Suc_eq)
      then show ?thesis ..
    next
      case (Inr operation')
      with step(2) False have "poll' getOp (Suc n) operation' = Some r"
        by simp
      from step(1) [OF this] obtain k where k: "\<not> pending getOp (Suc n) operation' k" ..
      then obtain j where "j < k"
        and "\<not> (\<exists>q. observed getOp (Suc n) operation' j = Inr q \<and> \<not> op_done q)"
        by (auto simp: pending_def)
      then have "\<not> pending getOp n operation (Suc (Suc j))"
        using observed_shift [of getOp n operation' operation j] Inr by (auto simp: pending_def)
      then show ?thesis ..
    qed
  qed
qed

lemma poll_never_done:
  "(\<forall>k. pending getOp n operation k) \<Longrightarrow> poll getOp n operation = None"
  using poll_returns_not_pending [of getOp n operation] by (cases "poll getOp n operation") auto

lemma poll_stops:
  assumes "poll getOp n operation = Some r"
  shows "\<exists>k. pending getOp n operation k
    \<and> (case observed getOp n operation k of
          Inl e \<Rightarrow> r = Inl e
        | Inr final \<Rightarrow> op_done final \<and> r = Inr final)"
proof -
  from poll_returns_not_pending [OF assms] obtain k0 where "\<not> pending getOp n operation k0" ..
  then have e: "\<exists>m. \<not> pending getOp n operation m" ..
  define m where "m = (LEAST m. \<not> pending getOp n operation m)"
  have nm: "\<not> pending getOp n operation m"
    unfolding m_def using e by (rule LeastI_ex)
  have "pending getOp n operation 0"
    by (simp add: pending_def)
  with nm have "m \<noteq> 0"
    by (cases m) auto
  then obtain k where k: "m = Suc k"
    by (cases m) auto
  have p: "pending getOp n operation k"
  proof (rule ccontr)
    assume "\<not> pending getOp n operation k"
    then have "m \<le> k"
      unfolding m_def by (rule Least_le)
    with k show False by simp
  qed
  from nm p have s: "\<not> (\<exists>operation'. observed getOp n operation k = Inr operation'
      \<and> \<not> op_done operation')"
    by (simp add: k pending_Suc)
  have "(case observed getOp n operation k of
          Inl e \<Rightarrow> r = Inl e
        | Inr final \<Rightarrow> op_done final \<and> r = Inr final)"
  proof (cases "observed getOp n operation k")
    case (Inl e)
    with poll_observed [OF p] assms show ?thesis by simp
  next
    case (Inr final)
    with s have d: "op_done final" by simp
    with poll_observed [OF p] assms Inr show ?thesis
      by (simp add: poll_done)
  qed
  with p show ?thesis by blast
qed

subsection \<open>Video generation\<close>

lemma retrieve_fails_iff:
  "(\<exists>e. retrieve env final = Inl e) \<longleftrightarrow>
     operation_videoUri final = None \<or> operation_videoUri final = Some []
     \<or> (\<exists>u. operation_videoUri final = Some u
            \<and> (case fetch env (u @ ''&key='' @ template (API_KEY env)) of
                  Inl _ \<Rightarrow> True
                | Inr res \<Rightarrow> \<not> ok res \<or> isl (blob res)))"
  by (auto simp: retrieve_def split: option.splits sum.splits)

lemma retrieve_succeeds:
  "operation_videoUri final = Some u \<Longrightarrow> u \<noteq> [] \<Longrightarrow>
   fetch env (u @ ''&key='' @ template (API_KEY env)) = Inr res \<Longrightarrow> ok res \<Longrightarrow>
   blob res = Inr v \<Longrightarrow> retrieve env final = Inr (createObjectURL env v)"
  by (simp add: retrieve_def)

lemma generateVideo_polled:
  assumes "getAI env = Inr ai" "fileToBase64 env = Inr b" "generateVideos ai = Inr op0"
    and "pending (getVideosOperation ai) 0 op0 k"
  shows "generateVideo env =
    (case observed (getVideosOperation ai) 0 op0 k of
       Inl e \<Rightarrow> Some (Inl e)
     | Inr final \<Rightarrow>
         (case poll (getVideosOperation ai) k final of
            None \<Rightarrow> None
          | Some (Inl e) \<Rightarrow> Some (Inl e)
          | Some (Inr operation) \<Rightarrow> Some (retrieve env operation)))"
  using poll_observed [OF assms(4)] assms(1-3)
  by (simp add: generateVideo_def split: sum.splits)

lemma generateVideo_raises_iff:
  "(\<exists>e. generateVideo env = Some (Inl e)) \<longleftrightarrow>
     isl (getAI env)
     \<or> (\<exists>ai. getAI env = Inr ai
           \<and> (isl (fileToBase64 env)
                \<or> (\<exists>b. fileToBase64 env = Inr b) \<and> isl (generateVideos ai)
                \<or> (\<exists>b op0 k. fileToBase64 env = Inr b \<and> generateVideos ai = Inr op0
                      \<and> pending (getVideosOperation ai) 0 op0 k
                      \<and> (isl (observed (getVideosOperation ai) 0 op0 k)
                           \<or> (\<exists>final. observed (getVideosOperation ai) 0 op0 k = Inr final
                                 \<and> op_done final \<and> isl (retrieve env final))))))"
proof (cases "getAI env")
  case (Inl e)
  then show ?thesis by (simp add: generateVideo_def)
next
  case ai: (Inr ai)
  show ?thesis
  proof (cases "fileToBase64 env")
    case (Inl e)
    with ai show ?thesis by (simp add: generateVideo_def)
  next
    case b: (Inr b)
    show ?thesis
    proof (cases "generateVideos ai")
      case (Inl e)
      with ai b show ?thesis by (simp add: generateVideo_def)
    next
      case op0: (Inr op0)
      have "(\<exists>e. generateVideo env = Some (Inl e)) \<longleftrightarrow>
          (\<exists>k. pending (getVideosOperation ai) 0 op0 k
             \<and> (isl (observed (getVideosOperation ai) 0 op0 k)
                  \<or> (\<exists>final. observed (getVideosOperation ai) 0 op0 k = Inr final
                        \<and> op_done final \<and> isl (retrieve env final))))"
      proof
        assume "\<exists>e. generateVideo env = Some (Inl e)"
        then obtain e where e: "generateVideo env = Some (Inl e)" ..
        then obtain r where r: "poll (getVideosOperation ai) 0 op0 = Some r"
          using ai b op0 by (auto simp: generateVideo_def split: option.splits)
        from poll_stops [OF r] obtain k where p: "pending (getVideosOperation ai) 0 op0 k"
          and c: "(case observed (getVideosOperation ai) 0 op0 k of
                     Inl e \<Rightarrow> r = Inl e
                   | Inr final \<Rightarrow> op_done final \<and> r = Inr final)"
          by blast
        have "isl (observed (getVideosOperation ai) 0 op0 k)
            \<or> (\<exists>final. observed (getVideosOperation ai) 0 op0 k = Inr final
                  \<and> op_done final \<and> isl (retrieve env final))"
        proof (cases "observed (getVideosOperation ai) 0 op0 k")
          case (Inl e')
          then show ?thesis by simp
        next
          case (Inr final)
          with c have "op_done final" "r = Inr final" by simp_all
          with e r ai b op0 have "retrieve env final = Inl e"
            by (simp add: generateVideo_def)
          with Inr \<open>op_done final\<close> show ?thesis by simp
        qed
        with p show "\<exists>k. pending (getVideosOperation ai) 0 op0 k
             \<and> (isl (observed (getVideosOperation ai) 0 op0 k)
                  \<or> (\<exists>final. observed (getVideosOperation ai) 0 op0 k = Inr final
                        \<and> op_done final \<and> isl (retrieve env final)))"
          by blast
      next
        assume "\<exists>k. pending (getVideosOperation ai) 0 op0 k
             \<and> (isl (observed (getVideosOperation ai) 0 op0 k)
                  \<or> (\<exists>final. observed (getVideosOperation ai) 0 op0 k = Inr final
                        \<and> op_done final \<and> isl (retrieve env final)))"
        then obtain k where p: "pending (getVideosOperation ai) 0 op0 k"
          and c: "isl (observed (getVideosOperation ai) 0 op0 k)
                  \<or> (\<exists>final. observed (getVideosOperation ai) 0 op0 k = Inr final
                        \<and> op_done final \<and> isl (retrieve env final))"
          by blast
        from c show "\<exists>e. generateVideo env = Some (Inl e)"
          using generateVideo_polled [OF ai b op0 p]
          by (auto simp: poll_done isl_def split: sum.splits)
      qed
      with ai b op0 show ?thesis by simp
    qed
  qed
qed

text \<open>
  Claim C7, amended.  \<^verbatim>\<open>generateVideo\<close> first builds the SDK client and raises what
  the constructor throws, as it does when no API key is configured.  With the client
  built, it raises the error of the file read or of the submit request when one of them
  fails.  Otherwise it polls the status endpoint as long as the answers are successful
  and not done: if a status request fails it raises that error; once an answer is done it
  stops polling and retrieves the video, and then it raises an error exactly when the
  final response carries no video URI (none, or an empty one) or the retrieval does not
  succeed (the fetch is rejected, its status is not ok, or reading the blob fails), and
  otherwise returns the object URL of the downloaded blob.  If no answer is ever done and
  none fails, the call never returns.  Altogether it raises an error exactly when the
  construction of the client fails, the file read fails, the submit request fails, or
  the polling stops at a failed status request or at a final response whose retrieval
  fails.
\<close>

theorem generateVideo_outcomes:
  "(getAI env = Inl e \<longrightarrow> generateVideo env = Some (Inl e))
   \<and> (getAI env = Inr ai \<and> fileToBase64 env = Inl e \<longrightarrow> generateVideo env = Some (Inl e))
   \<and> (getAI env = Inr ai \<and> fileToBase64 env = Inr b \<and> generateVideos ai = Inl e \<longrightarrow>
        generateVideo env = Some (Inl e))
   \<and> (getAI env = Inr ai \<and> fileToBase64 env = Inr b \<and> generateVideos ai = Inr op0
        \<and> pending (getVideosOperation ai) 0 op0 k \<longrightarrow>
          (observed (getVideosOperation ai) 0 op0 k = Inl e \<longrightarrow>
             generateVideo env = Some (Inl e))
        \<and> (observed (getVideosOperation ai) 0 op0 k = Inr final \<and> op_done final \<longrightarrow>
             generateVideo env = Some (retrieve env final)
           \<and> ((\<exists>e'. retrieve env final = Inl e') \<longleftrightarrow>
                 operation_videoUri final = None \<or> operation_videoUri final = Some []
                 \<or> (\<exists>u. operation_videoUri final = Some u
                        \<and> (case fetch env (u @ ''&key='' @ template (API_KEY env)) of
                              Inl _ \<Rightarrow> True
                            | Inr res \<Rightarrow> \<not> ok res \<or> isl (blob res))))
           \<and> (\<forall>u res v. operation_videoUri final = Some u \<and> u \<noteq> []
                 \<and> fetch env (u @ ''&key='' @ template (API_KEY env)) = Inr res \<and> ok res
                 \<and> blob res = Inr v \<longrightarrow>
                 retrieve env final = Inr (createObjectURL env v))))
   \<and> (getAI env = Inr ai \<and> fileToBase64 env = Inr b \<and> generateVideos ai = Inr op0
        \<and> (\<forall>k. pending (getVideosOperation ai) 0 op0 k) \<longrightarrow>
          generateVideo env = None)
   \<and> ((\<exists>e. generateVideo env = Some (Inl e)) \<longleftrightarrow>
        isl (getAI env)
        \<or> (\<exists>ai. getAI env = Inr ai
              \<and> (isl (fileToBase64 env)
                   \<or> (\<exists>b. fileToBase64 env = Inr b) \<and> isl (generateVideos ai)
                   \<or> (\<exists>b op0 k. fileToBase64 env = Inr b \<and> generateVideos ai = Inr op0
                         \<and> pending (getVideosOperation ai) 0 op0 k
                         \<and> (isl (observed (getVideosOperation ai) 0 op0 k)
                              \<or> (\<exists>final. observed (getVideosOperation ai) 0 op0 k = Inr final
                                    \<and> op_done final \<and> isl (retrieve env final)))))))"
proof (intro conjI impI)
  assume "getAI env = Inl e"
  then show "generateVideo env = Some (Inl e)"
    by (simp add: generateVideo_def)
next
  assume "getAI env = Inr ai \<and> fileToBase64 env = Inl e"
  then show "generateVideo env = Some (Inl e)"
    by (simp add: generateVideo_def)
next
  assume "getAI env = Inr ai \<and> fileToBase64 env = Inr b \<and> generateVideos ai = Inl e"
  then show "generateVideo env = Some (Inl e)"
    by (simp add: generateVideo_def)
next
  assume h: "getAI env = Inr ai \<and> fileToBase64 env = Inr b \<and> generateVideos ai = Inr op0
      \<and> pending (getVideosOperation ai) 0 op0 k"
    and "observed (getVideosOperation ai) 0 op0 k = Inl e"
  then show "generateVideo env = Some (Inl e)"
    using generateVideo_polled [of env ai b op0 k] by simp
next
  assume h: "getAI env = Inr ai \<and> fileToBase64 env = Inr b \<and> generateVideos ai = Inr op0
      \<and> pending (getVideosOperation ai) 0 op0 k"
    and f: "observed (getVideosOperation ai) 0 op0 k = Inr final \<and> op_done final"
  then show "generateVideo env = Some (retrieve env final)"
    using generateVideo_polled [of env ai b op0 k] by (simp add: poll_done)
next
  show "(\<exists>e'. retrieve env final = Inl e') \<longleftrightarrow>
      operation_videoUri final = None \<or> operation_videoUri final = Some []
      \<or> (\<exists>u. operation_videoUri final = Some u
             \<and> (case fetch env (u @ ''&key='' @ template (API_KEY env)) of
                   Inl _ \<Rightarrow> True
                 | Inr res \<Rightarrow> \<not> ok res \<or> isl (blob res)))"
    by (rule retrieve_fails_iff)
next
  show "\<forall>u res v. operation_videoUri final = Some u \<and> u \<noteq> []
      \<and> fetch env (u @ ''&key='' @ template (API_KEY env)) = Inr res \<and> ok res
      \<and> blob res = Inr v \<longrightarrow>
      retrieve env final = Inr (createObjectURL env v)"
    by (auto intro: retrieve_succeeds)
next
  assume "getAI env = Inr ai \<and> fileToBase64 env = Inr b \<and> generateVideos ai = Inr op0
      \<and> (\<forall>k. pending (getVideosOperation ai) 0 op0 k)"
  then show "generateVideo env = None"
    using poll_never_done [of "getVideosOperation ai" 0 op0]
    by (simp add: generateVideo_def)
next
  show "(\<exists>e. generateVideo env = Some (Inl e)) \<longleftrightarrow>
      isl (getAI env)
      \<or> (\<exists>ai. getAI env = Inr ai
            \<and> (isl (fileToBase64 env)
                 \<or> (\<exists>b. fileToBase64 env = Inr b) \<and> isl (generateVideos ai)
                 \<or> (\<exists>b op0 k. fileToBase64 env = Inr b \<and> generateVideos ai = Inr op0
                       \<and> pending (getVideosOperation ai) 0 op0 k
                       \<and> (isl (observed (getVideosOperation ai) 0 op0 k)
                            \<or> (\<exists>final. observed (getVideosOperation ai) 0 op0 k = Inr final
                                  \<and> op_done final \<and> isl (retrieve env final))))))"
    by (rule generateVideo_raises_iff)
qed

text \<open>
  Claim C7, as stated, fails in its ``only if'' part: \<^verbatim>\<open>generateVideo\<close> also raises
  what the statements before the download throw or reject with.  In a session whose
  backend answers with a finished operation that carries a video URI and whose download
  succeeds, so that the call returns a handle when a key is set and the file is readable,
  the call raises an error when no API key is set (the constructor of the client throws)
  and when reading the file fails (\<^verbatim>\<open>reader.onerror\<close> rejects the promise of
  \<^verbatim>\<open>fileToBase64\<close>).
\<close>

theorem generateVideo_other_failure_counterexample:
  "generateVideo (browser None (Inr ''data:image/png;base64,AAAA''))
     = Some (Inl (Rejection ''API key must be set''))
   \<and> generateVideo (browser (Some ''k'') (Inl (Rejection ''ProgressEvent'')))
     = Some (Inl (Rejection ''ProgressEvent''))
   \<and> generateVideo (browser (Some ''k'') (Inr ''data:image/png;base64,AAAA''))
     = Some (Inr ''blob:mp4'')
   \<and> operation_videoUri finished_operation = Some ''https://video''
   \<and> retrieve (browser None (Inr ''data:image/png;base64,AAAA'')) finished_operation
     = Inr ''blob:mp4''
   \<and> retrieve (browser (Some ''k'') (Inl (Rejection ''ProgressEvent''))) finished_operation
     = Inr ''blob:mp4''"
proof -
  have u: "operation_videoUri finished_operation = Some ''https://video''"
    by (simp add: operation_videoUri_def finished_operation_def)
  have r: "retrieve (browser apiKey res) finished_operation = Inr ''blob:mp4''" for apiKey res
    by (simp add: retrieve_def u browser_def)
  have d: "op_done finished_operation"
    by (simp add: finished_operation_def)
  have "generateVideo (browser None (Inr ''data:image/png;base64,AAAA''))
      = Some (Inl (Rejection ''API key must be set''))"
    by (simp add: generateVideo_def getAI_def browser_def sdk_def)
  moreover have "generateVideo (browser (Some ''k'') (Inl (Rejection ''ProgressEvent'')))
      = Some (Inl (Rejection ''ProgressEvent''))"
    by (simp add: generateVideo_def getAI_def browser_def sdk_def fileToBase64_def)
  moreover have "generateVideo (browser (Some ''k'') (Inr ''data:image/png;base64,AAAA''))
      = Some (Inr ''blob:mp4'')"
    using r [of "Some ''k''" "Inr ''data:image/png;base64,AAAA''"]
    by (simp add: generateVideo_def getAI_def browser_def sdk_def fileToBase64_def
        poll_done [OF d])
  ultimately show ?thesis
    using u r by simp
qed

theorem generateVideo_outcomes_witness:
  "(let waiting = \<lparr>op_done = False, response = None\<rparr>;
        ai = \<lparr>generateVideos = Inr waiting,
              getVideosOperation = (\<lambda>n. if n = 0 then Inr waiting else Inr finished_operation),
              generateContent = Inl (Rejection ''not an image model'')\<rparr>;
        env = \<lparr>API_KEY = Some ''k'', GoogleGenAI = (\<lambda>_. Inr ai),
               readAsDataURL = Inr ''data:image/png;base64,AAAA'',
               fetch = (\<lambda>url. if url = ''https://video&key=k''
                               then Inr \<lparr>ok = True, blob = Inr ''mp4''\<rparr>
                               else Inl (Rejection ''TypeError'')),
               createObjectURL = (\<lambda>b. ''blob:'' @ b)\<rparr>
    in getAI env = Inr ai
       \<and> pending (getVideosOperation ai) 0 waiting (Suc (Suc 0))
       \<and> observed (getVideosOperation ai) 0 waiting (Suc (Suc 0)) = Inr finished_operation
       \<and> generateVideo env = Some (Inr ''blob:mp4''))
   \<and> generateVideo (browser None (Inr ''data:image/png;base64,AAAA''))
       = Some (Inl (Rejection ''API key must be set''))"
proof -
  let ?waiting = "\<lparr>op_done = False, response = None\<rparr>"
  let ?ai = "\<lparr>generateVideos = Inr ?waiting,
              getVideosOperation = (\<lambda>n. if n = 0 then Inr ?waiting else Inr finished_operation),
              generateContent = Inl (Rejection ''not an image model'')\<rparr>"
  let ?env = "\<lparr>API_KEY = Some ''k'', GoogleGenAI = (\<lambda>_. Inr ?ai),
               readAsDataURL = Inr ''data:image/png;base64,AAAA'',
               fetch = (\<lambda>url. if url = ''https://video&key=k''
                               then Inr \<lparr>ok = True, blob = Inr ''mp4''\<rparr>
                               else Inl (Rejection ''TypeError'')),
               createObjectURL = (\<lambda>b. ''blob:'' @ b)\<rparr>"
  have a: "getAI ?env = Inr ?ai"
    by (simp add: getAI_def)
  have r: "fileToBase64 ?env = Inr ''data:image/png;base64,AAAA''"
    and s: "generateVideos ?ai = Inr ?waiting"
    by (simp_all add: fileToBase64_def)
  have d: "op_done finished_operation"
    by (simp add: finished_operation_def)
  have p: "pending (getVideosOperation ?ai) 0 ?waiting (Suc (Suc 0))"
    by (simp add: pending_def less_Suc_eq)
  have f: "observed (getVideosOperation ?ai) 0 ?waiting (Suc (Suc 0)) = Inr finished_operation"
    by simp
  have v: "retrieve ?env finished_operation = Inr ''blob:mp4''"
    by (simp add: retrieve_def operation_videoUri_def template_def finished_operation_def)
  from generateVideo_outcomes [of ?env _ ?ai "''data:image/png;base64,AAAA''" ?waiting
      "Suc (Suc 0)" finished_operation] a r s p f d
  have "generateVideo ?env = Some (retrieve ?env finished_operation)"
    by blast
  then have g: "generateVideo ?env = Some (Inr ''blob:mp4'')"
    unfolding v .
  have "getAI (browser None (Inr ''data:image/png;base64,AAAA''))
      = Inl (Rejection ''API key must be set'')"
    by (simp add: getAI_def browser_def sdk_def)
  with generateVideo_outcomes [of "browser None (Inr ''data:image/png;base64,AAAA'')"
      "Rejection ''API key must be set''"]
  have n: "generateVideo (browser None (Inr ''data:image/png;base64,AAAA''))
      = Some (Inl (Rejection ''API key must be set''))"
    by blast
  from a p f g n show ?thesis
    unfolding Let_def by blast
qed

subsection \<open>Image editing\<close>

lemma extract_image_first:
  "(\<forall>q\<in>set pre. inlineData q = None) \<Longrightarrow> inlineData p = Some d \<Longrightarrow>
     extract_image (pre @ p # post) = Inr (''data:image/png;base64,'' @ template (data d))"
  by (induction pre) simp_all

lemma extract_image_none:
  "(\<forall>q\<in>set ps. inlineData q = None) \<Longrightarrow>
     extract_image ps = Inl (Error ''No image generated in response'')"
  by (induction ps) simp_all

text \<open>
  Claim C10.  When \<^verbatim>\<open>editImage\<close> has received a response, that is, the client was
  built and the file read and the request succeeded, and the parts of the first candidate
  of the response consist of parts without inline data followed by a part with inline
  data, it returns the text \<^verbatim>\<open>data:image/png;base64,\<close> followed by the data of that
  part, whatever mime type the part reports and whatever follows it; when no part of the
  first candidate carries inline data (or there is no candidate, content or part list),
  it raises \<^verbatim>\<open>No image generated in response\<close>.
\<close>

theorem editImage_first_inline_part:
  "getAI env = Inr ai \<and> fileToBase64 env = Inr b \<and> generateContent ai = Inr r \<longrightarrow>
     (candidates r = Some (c # cs) \<and> content c = Some ct \<and> parts ct = Some (pre @ p # post)
        \<and> (\<forall>q\<in>set pre. inlineData q = None) \<and> inlineData p = Some d \<longrightarrow>
          editImage env = Inr (''data:image/png;base64,'' @ template (data d))
        \<and> (\<forall>s. data d = Some s \<longrightarrow> editImage env = Inr (''data:image/png;base64,'' @ s)))
     \<and> ((\<forall>q\<in>set (response_parts r). inlineData q = None) \<longrightarrow>
          editImage env = Inl (Error ''No image generated in response''))"
proof (intro conjI impI allI)
  assume h: "getAI env = Inr ai \<and> fileToBase64 env = Inr b \<and> generateContent ai = Inr r"
  then have e: "editImage env = extract_image (response_parts r)"
    by (simp add: editImage_def)
  {
    assume a: "candidates r = Some (c # cs) \<and> content c = Some ct
        \<and> parts ct = Some (pre @ p # post)
        \<and> (\<forall>q\<in>set pre. inlineData q = None) \<and> inlineData p = Some d"
    then have "response_parts r = pre @ p # post"
      by (simp add: response_parts_def)
    with a show t: "editImage env = Inr (''data:image/png;base64,'' @ template (data d))"
      by (simp add: e extract_image_first)
    fix s
    assume "data d = Some s"
    with t show "editImage env = Inr (''data:image/png;base64,'' @ s)"
      by (simp add: template_def)
  }
  assume "\<forall>q\<in>set (response_parts r). inlineData q = None"
  then show "editImage env = Inl (Error ''No image generated in response'')"
    by (simp add: e extract_image_none)
qed

theorem editImage_first_inline_part_witness:
  "(let r = \<lparr>candidates = Some [\<lparr>content = Some \<lparr>parts = Some
               [\<lparr>inlineData = None, part_text = Some ''Here is your image''\<rparr>,
                \<lparr>inlineData = Some \<lparr>data = Some ''QUJD'', mimeType = Some ''image/jpeg''\<rparr>,
                  part_text = None\<rparr>,
                \<lparr>inlineData = Some \<lparr>data = Some ''REVG'', mimeType = Some ''image/png''\<rparr>,
                  part_text = None\<rparr>]\<rparr>\<rparr>]\<rparr>;
        ai = \<lparr>generateVideos = Inl (Rejection ''not a video model''),
              getVideosOperation = (\<lambda>_. Inl (Rejection ''not a video model'')),
              generateContent = Inr r\<rparr>;
        env = \<lparr>API_KEY = Some ''k'', GoogleGenAI = (\<lambda>_. Inr ai),
               readAsDataURL = Inr ''data:image/png;base64,AAAA'',
               fetch = (\<lambda>_. Inl (Rejection ''TypeError'')),
               createObjectURL = (\<lambda>b. ''blob:'' @ b)\<rparr>
    in editImage env = Inr ''data:image/png;base64,QUJD'')"
proof -
  let ?t = "\<lparr>inlineData = None, part_text = Some ''Here is your image''\<rparr>"
  let ?d = "\<lparr>data = Some ''QUJD'', mimeType = Some ''image/jpeg''\<rparr>"
  let ?p = "\<lparr>inlineData = Some ?d, part_text = None\<rparr>"
  let ?q = "\<lparr>inlineData = Some \<lparr>data = Some ''REVG'', mimeType = Some ''image/png''\<rparr>,
                  part_text = None\<rparr>"
  let ?ct = "\<lparr>parts = Some ([?t] @ ?p # [?q])\<rparr>"
  let ?c = "\<lparr>content = Some ?ct\<rparr>"
  let ?r = "\<lparr>candidates = Some (?c # [])\<rparr>"
  let ?ai = "\<lparr>generateVideos = Inl (Rejection ''not a video model''),
              getVideosOperation = (\<lambda>_. Inl (Rejection ''not a video model'')),
              generateContent = Inr ?r\<rparr>"
  let ?env = "\<lparr>API_KEY = Some ''k'', GoogleGenAI = (\<lambda>_. Inr ?ai),
               readAsDataURL = Inr ''data:image/png;base64,AAAA'',
               fetch = (\<lambda>_. Inl (Rejection ''TypeError'')),
               createObjectURL = (\<lambda>b. ''blob:'' @ b)\<rparr>"
  have "getAI ?env = Inr ?ai \<and> fileToBase64 ?env = Inr ''data:image/png;base64,AAAA''
      \<and> generateContent ?ai = Inr ?r"
    by (simp add: fileToBase64_def getAI_def)
  moreover have "candidates ?r = Some (?c # []) \<and> content ?c = Some ?ct
      \<and> parts ?ct = Some ([?t] @ ?p # [?q])
      \<and> (\<forall>q\<in>set [?t]. inlineData q = None) \<and> inlineData ?p = Some ?d"
    by simp
  ultimately have "editImage ?env = Inr (''data:image/png;base64,'' @ template (data ?d))"
    using editImage_first_inline_part [of ?env ?ai "''data:image/png;base64,AAAA''" ?r ?c "[]"
        ?ct "[?t]" ?p "[?q]" ?d]
    by blast
  then show ?thesis
    by (simp add: Let_def template_def)
qed

end
